theory Spec2Isabelle
  imports Complex_Main "HOL-Library.Word" "HOL-Library.Log_Nat"
begin

section \<open>Rasters\<close>

text \<open>
  A frame is a NumPy array of shape \<open>(h, w, 3)\<close> and dtype \<open>uint8\<close>: a list of rows, each a
  list of pixels, each pixel three 8-bit channels (B, G, R for colour frames; H, S, V after
  the colour conversion). The single-channel maps of \<open>perform_chroma_key\<close> (\<open>mask\<close>,
  \<open>alpha\<close>) are lists of rows of scalars. A \<open>float32\<close> value is the rational number it
  denotes.
\<close>

type_synonym u8 = "8 word"
type_synonym pixel = "u8 \<times> u8 \<times> u8"
type_synonym raster = "pixel list list"
type_synonym fpixel = "rat \<times> rat \<times> rat"
type_synonym alpha_map = "rat list list"

definition height :: "'a list list \<Rightarrow> nat" where
  "height img = length img"

definition width :: "'a list list \<Rightarrow> nat" where
  "width img = (case img of [] \<Rightarrow> 0 | r # _ \<Rightarrow> length r)"

text \<open>An array of shape \<open>(h, w)\<close>: \<open>h\<close> rows of \<open>w\<close> entries each.\<close>

definition rect :: "nat \<Rightarrow> nat \<Rightarrow> 'a list list \<Rightarrow> bool" where
  "rect h w img \<longleftrightarrow> length img = h \<and> (\<forall>r \<in> set img. length r = w)"

text \<open>Channel \<open>c\<close> of a pixel (\<open>p[c]\<close>); channel 1 is green in B, G, R order.\<close>

definition chan :: "nat \<Rightarrow> 'a \<times> 'a \<times> 'a \<Rightarrow> 'a" where
  "chan c p = (if c = 0 then fst p else if c = 1 then fst (snd p) else snd (snd p))"

definition map_px :: "('a \<Rightarrow> 'b) \<Rightarrow> 'a \<times> 'a \<times> 'a \<Rightarrow> 'b \<times> 'b \<times> 'b" where
  "map_px f p = (f (fst p), f (fst (snd p)), f (snd (snd p)))"

text \<open>\<open>x.astype(np.float32)\<close> on an 8-bit value: exact.\<close>

definition to_float :: "u8 \<Rightarrow> rat" where
  "to_float x = of_int (uint x)"

text \<open>\<open>np.clip(x, lo, hi)\<close>, which is \<open>minimum(maximum(x, lo), hi)\<close>: exact.\<close>

definition clip :: "rat \<Rightarrow> rat \<Rightarrow> rat \<Rightarrow> rat" where
  "clip x lo hi = min (max x lo) hi"

text \<open>\<open>x.astype(np.uint8)\<close> on a float: the fraction is cut off (towards zero).\<close>

definition astype_uint8 :: "rat \<Rightarrow> u8" where
  "astype_uint8 x = word_of_int (if x < 0 then \<lceil>x\<rceil> else \<lfloor>x\<rfloor>)"


section \<open>float32 arithmetic\<close>

text \<open>
  NumPy computes \<open>alpha * bg\<close>, \<open>1.0 - alpha\<close>, the sum of the two products and the
  subtraction of the spill in \<open>float32\<close>: each operation returns the exact result rounded
  to the nearest \<open>float32\<close>, ties to the even significand. \<open>f32\<close> is that rounding:
  \<open>expo x\<close> is the binary exponent of \<open>x\<close>, \<open>ulp x\<close> the spacing of the \<open>float32\<close> values
  around \<open>x\<close> (24 significant bits, subnormal below \<open>2^-126\<close>), \<open>rint\<close> rounds to the
  nearest integer, ties to even. Magnitudes of \<open>2^128\<close> and more, which \<open>float32\<close> turns
  into infinity, do not arise from 8-bit channels and alpha in \<open>[0, 1]\<close>.
\<close>

definition rint :: "rat \<Rightarrow> int" where
  "rint x =
     (let f = \<lfloor>x\<rfloor>; r = x - of_int f
      in if r < 1 / 2 then f else if 1 / 2 < r then f + 1 else if even f then f else f + 1)"

definition expo :: "rat \<Rightarrow> int" where
  "expo x = (if 1 \<le> \<bar>x\<bar> then bitlen \<lfloor>\<bar>x\<bar>\<rfloor> - 1 else - bitlen (\<lceil>1 / \<bar>x\<bar>\<rceil> - 1))"

definition ulp :: "rat \<Rightarrow> rat" where
  "ulp x = 2 powi (max (expo x) (- 126) - 23)"

definition f32 :: "rat \<Rightarrow> rat" where
  "f32 x = (if x = 0 then 0 else of_int (rint (x / ulp x)) * ulp x)"

section \<open>The OpenCV collaborator\<close>

text \<open>
  The numerical routines of OpenCV that the source calls are not code of the repository.
  The three whose result depends on OpenCV's numerics are parameters of the model:
  \<^item> \<open>cvtColor_BGR2HSV\<close>: \<open>cv2.cvtColor(_, cv2.COLOR_BGR2HSV)\<close>, a pixel-wise conversion;
  \<^item> \<open>resize\<close>: \<open>cv2.resize(src, (w, h))\<close>;
  \<^item> \<open>GaussianBlur\<close>: \<open>cv2.GaussianBlur(src, (k, k), 0)\<close> on a single-channel float map.
  What a theorem needs to know about them is stated as a hypothesis on the parameter.
\<close>

record cv2 =
  cvtColor_BGR2HSV :: "pixel \<Rightarrow> pixel"
  resize :: "raster \<Rightarrow> nat \<times> nat \<Rightarrow> raster"
  GaussianBlur :: "alpha_map \<Rightarrow> int \<Rightarrow> alpha_map"

text \<open>\<open>cv2.resize\<close> to the size the source already has returns the source.\<close>

definition resize_same :: "cv2 \<Rightarrow> bool" where
  "resize_same cv \<longleftrightarrow> (\<forall>src h w. rect h w src \<longrightarrow> resize cv src (w, h) = src)"

text \<open>\<open>cv2.GaussianBlur\<close> returns a map of the shape of its input.\<close>

definition blur_shape :: "cv2 \<Rightarrow> bool" where
  "blur_shape cv \<longleftrightarrow> (\<forall>a k h w. rect h w a \<longrightarrow> rect h w (GaussianBlur cv a k))"

text \<open>With a 1 x 1 kernel \<open>cv2.GaussianBlur\<close> copies its input.\<close>

definition blur_k1 :: "cv2 \<Rightarrow> bool" where
  "blur_k1 cv \<longleftrightarrow> (\<forall>a. GaussianBlur cv a 1 = a)"



text \<open>The 8-bit hue of OpenCV is a half-degree count below 180.\<close>

definition hue_range :: "cv2 \<Rightarrow> bool" where
  "hue_range cv \<longleftrightarrow> (\<forall>p. uint (fst (cvtColor_BGR2HSV cv p)) < 180)"

text \<open>
  The entries of a map within \<open>r\<close> rows and \<open>r\<close> columns of position \<open>(y, x)\<close>: the window
  of a kernel of size \<open>2 r + 1\<close> centred there, as far as it lies inside the map (the
  border pixels that OpenCV reflects into the window are pixels of that same part).
\<close>

definition window :: "'a list list \<Rightarrow> nat \<Rightarrow> nat \<Rightarrow> nat \<Rightarrow> 'a list" where
  "window a r y x =
     concat (map (\<lambda>row. take (x + r + 1 - (x - r)) (drop (x - r) row))
               (take (y + r + 1 - (y - r)) (drop (y - r) a)))"




text \<open>
  \<open>cv2.inRange(src, lowerb, upperb)\<close> at one pixel: 255 when every channel lies between its
  bounds (both inclusive), else 0. The bounds are the integers of the NumPy bound arrays.
\<close>

definition inRange :: "pixel \<Rightarrow> int \<times> int \<times> int \<Rightarrow> int \<times> int \<times> int \<Rightarrow> u8" where
  "inRange p lowerb upperb =
     (if chan 0 lowerb \<le> uint (chan 0 p) \<and> uint (chan 0 p) \<le> chan 0 upperb \<and>
         chan 1 lowerb \<le> uint (chan 1 p) \<and> uint (chan 1 p) \<le> chan 1 upperb \<and>
         chan 2 lowerb \<le> uint (chan 2 p) \<and> uint (chan 2 p) \<le> chan 2 upperb
      then 255 else 0)"

text \<open>
  A \<open>cv2.VideoCapture\<close>: the decodable frames and the read position. \<open>read()\<close> returns
  \<open>(True, frame)\<close> and advances, or \<open>(False, None)\<close> at the end;
  \<open>set(cv2.CAP_PROP_POS_FRAMES, 0)\<close> rewinds.
\<close>

record capture =
  cap_frames :: "raster list"
  cap_pos :: nat

definition cap_read :: "capture \<Rightarrow> raster option \<times> capture" where
  "cap_read cap =
     (if cap_pos cap < length (cap_frames cap)
      then (Some (cap_frames cap ! cap_pos cap), cap\<lparr>cap_pos := Suc (cap_pos cap)\<rparr>)
      else (None, cap))"

definition cap_rewind :: "capture \<Rightarrow> capture" where
  "cap_rewind cap = cap\<lparr>cap_pos := 0\<rparr>"


section \<open>chroma_key_core.perform_chroma_key\<close>

text \<open>
  The \<open>bg_source\<close> argument: \<open>None\<close>, a NumPy image, or a \<open>cv2.VideoCapture\<close>. The
  capture is the one mutable argument, so the model returns it with the result.
\<close>

datatype bg_source = NoSource | Image raster | Capture capture

text \<open>
  The exceptions the body can raise: \<open>AttributeError\<close> when \<open>.read()\<close> is called on an
  image, \<open>CvError\<close> when \<open>cv2.resize\<close> is given a capture, an empty image or an empty
  target size, \<open>OverflowError\<close> when a Python integer does not fit the 8-bit scalar it is
  combined with, \<open>IndexError\<close> for a list index out of range.
\<close>

datatype error = AttributeError | CvError | OverflowError | IndexError

text \<open>
  Lines 58 and 59. \<open>target_hsv[0]\<close> is a \<open>numpy.uint8\<close> scalar and \<open>tolerance\<close> a Python
  integer. By NumPy's promotion rules (NumPy 2, NEP 50) the Python integer is converted to
  \<open>uint8\<close>: a tolerance outside \<open>0..255\<close> raises \<open>OverflowError\<close>, and the difference or
  sum is computed in 8 bits and wraps modulo 256. \<open>max\<close> and \<open>min\<close> then compare that 8-bit
  result with 0 and 180. (NumPy 1 promoted the operands to a 64-bit integer instead; the
  repository does not pin a version, and the model follows the current rule.)
\<close>

definition lower_bound :: "pixel \<Rightarrow> int \<Rightarrow> error + int \<times> int \<times> int" where
  "lower_bound target_hsv tolerance =
     (if tolerance < 0 \<or> 255 < tolerance then Inl OverflowError
      else Inr (max 0 (uint (fst target_hsv - word_of_int tolerance)), 50, 50))"

definition upper_bound :: "pixel \<Rightarrow> int \<Rightarrow> error + int \<times> int \<times> int" where
  "upper_bound target_hsv tolerance =
     (if tolerance < 0 \<or> 255 < tolerance then Inl OverflowError
      else Inr (min 180 (uint (fst target_hsv + word_of_int tolerance)), 255, 255))"

text \<open>Lines 55 and 60: the frame converted to HSV and tested against the bounds.\<close>

definition in_range_mask ::
  "cv2 \<Rightarrow> raster \<Rightarrow> int \<times> int \<times> int \<Rightarrow> int \<times> int \<times> int \<Rightarrow> u8 list list" where
  "in_range_mask cv frame lowerb upperb =
     map (map (\<lambda>p. inRange (cvtColor_BGR2HSV cv p) lowerb upperb)) frame"

text \<open>Lines 55 to 60: the binary mask.\<close>

definition chroma_mask :: "cv2 \<Rightarrow> raster \<Rightarrow> pixel \<Rightarrow> int \<Rightarrow> error + u8 list list" where
  "chroma_mask cv frame bg_color_bgr tolerance =
     (let target_hsv = cvtColor_BGR2HSV cv bg_color_bgr
      in case lower_bound target_hsv tolerance of
           Inl e \<Rightarrow> Inl e
         | Inr lowerb \<Rightarrow>
             (case upper_bound target_hsv tolerance of
                Inl e \<Rightarrow> Inl e
              | Inr upperb \<Rightarrow> Inr (in_range_mask cv frame lowerb upperb)))"

text \<open>Line 62: \<open>mask.astype(np.float32) / 255.0\<close>.\<close>

definition mask_alpha :: "u8 list list \<Rightarrow> alpha_map" where
  "mask_alpha msk = map (map (\<lambda>m. f32 (to_float m / 255))) msk"

text \<open>Line 63.\<close>

definition blur_size :: "int \<Rightarrow> int" where
  "blur_size softness = max 1 (softness * 4 + 1)"

text \<open>Lines 62 to 64: the alpha map of a mask.\<close>

definition blurred_alpha :: "cv2 \<Rightarrow> u8 list list \<Rightarrow> int \<Rightarrow> alpha_map" where
  "blurred_alpha cv msk softness = GaussianBlur cv (mask_alpha msk) (blur_size softness)"

text \<open>Lines 55 to 64: the alpha map that the blend uses.\<close>

definition alpha :: "cv2 \<Rightarrow> raster \<Rightarrow> pixel \<Rightarrow> int \<Rightarrow> int \<Rightarrow> error + alpha_map" where
  "alpha cv frame bg_color_bgr tolerance softness =
     (case chroma_mask cv frame bg_color_bgr tolerance of
        Inl e \<Rightarrow> Inl e
      | Inr msk \<Rightarrow> Inr (blurred_alpha cv msk softness))"

text \<open>
  Lines 66 to 69 on one channel: \<open>alpha * bg + (1.0 - alpha) * frame\<close>, every operation
  rounded to \<open>float32\<close>.
\<close>

definition blend_ch :: "rat \<Rightarrow> u8 \<Rightarrow> u8 \<Rightarrow> rat" where
  "blend_ch a b f = f32 (f32 (a * to_float b) + f32 (f32 (1 - a) * to_float f))"

definition blend_px :: "rat \<Rightarrow> pixel \<Rightarrow> pixel \<Rightarrow> fpixel" where
  "blend_px a bgp fp =
     (blend_ch a (chan 0 bgp) (chan 0 fp),
      blend_ch a (chan 1 bgp) (chan 1 fp),
      blend_ch a (chan 2 bgp) (chan 2 fp))"

text \<open>Lines 66 to 69: the array \<open>combined\<close>.\<close>

definition combined_img :: "alpha_map \<Rightarrow> raster \<Rightarrow> raster \<Rightarrow> fpixel list list" where
  "combined_img a bg_resized frame =
     map2 (\<lambda>arow (brow, frow). map2 (\<lambda>a (bgp, fp). blend_px a bgp fp) arow (zip brow frow))
       a (zip bg_resized frame)"

text \<open>
  Line 72: channel 1 becomes \<open>np.clip(combined[:, :, 1] - color_spill, 0, 255)\<close>. The
  Python integer is converted to \<open>float32\<close> and the subtraction is rounded to \<open>float32\<close>.
  (Beyond the \<open>float32\<close> range the model keeps the rounded number where NumPy has
  infinity; the clip gives 0 either way.)
\<close>

definition spill_px :: "int \<Rightarrow> fpixel \<Rightarrow> fpixel" where
  "spill_px color_spill p =
     (chan 0 p, clip (f32 (chan 1 p - f32 (of_int color_spill))) 0 255, chan 2 p)"

definition spill_img :: "int \<Rightarrow> fpixel list list \<Rightarrow> fpixel list list" where
  "spill_img color_spill combined = map (map (spill_px color_spill)) combined"

text \<open>Line 74.\<close>

definition final_px :: "fpixel \<Rightarrow> pixel" where
  "final_px p = map_px (\<lambda>x. astype_uint8 (clip x 0 255)) p"

definition final_img :: "fpixel list list \<Rightarrow> raster" where
  "final_img combined = map (map final_px) combined"

text \<open>Lines 71 to 74: the spill step, taken only when \<open>color_spill > 0\<close>, and the result.\<close>

definition finish :: "int \<Rightarrow> fpixel list list \<Rightarrow> raster" where
  "finish color_spill combined =
     final_img (if color_spill > 0 then spill_img color_spill combined else combined)"

text \<open>Lines 55 to 74, given the resized background.\<close>

definition key_and_blend ::
  "cv2 \<Rightarrow> raster \<Rightarrow> raster \<Rightarrow> pixel \<Rightarrow> int \<Rightarrow> int \<Rightarrow> int \<Rightarrow> error + raster" where
  "key_and_blend cv frame bg_resized bg_color_bgr tolerance softness color_spill =
     (case alpha cv frame bg_color_bgr tolerance softness of
        Inl e \<Rightarrow> Inl e
      | Inr a \<Rightarrow> Inr (finish color_spill (combined_img a bg_resized frame)))"

text \<open>Lines 51 and 53: \<open>cv2.resize\<close> rejects an empty source and an empty target size.\<close>

definition resize_to :: "cv2 \<Rightarrow> raster \<Rightarrow> nat \<Rightarrow> nat \<Rightarrow> error + raster" where
  "resize_to cv src w h =
     (if height src = 0 \<or> width src = 0 \<or> w = 0 \<or> h = 0 then Inl CvError
      else Inr (resize cv src (w, h)))"

definition composite_with ::
  "cv2 \<Rightarrow> raster \<Rightarrow> raster \<Rightarrow> pixel \<Rightarrow> int \<Rightarrow> int \<Rightarrow> int \<Rightarrow> error + raster" where
  "composite_with cv frame bg bg_color_bgr tolerance softness color_spill =
     (case resize_to cv bg (width frame) (height frame) of
        Inl e \<Rightarrow> Inl e
      | Inr bg_resized \<Rightarrow>
          key_and_blend cv frame bg_resized bg_color_bgr tolerance softness color_spill)"

text \<open>
  The whole function. The result is the returned frame or the exception, together with the
  background source as the call leaves it.
\<close>

definition perform_chroma_key ::
  "cv2 \<Rightarrow> raster \<Rightarrow> bg_source \<Rightarrow> bool \<Rightarrow> pixel \<Rightarrow> int \<Rightarrow> int \<Rightarrow> int
     \<Rightarrow> (error + raster) \<times> bg_source" where
  "perform_chroma_key cv frame bg_source bg_is_video bg_color_bgr tolerance softness color_spill =
     (case bg_source of
        NoSource \<Rightarrow> (Inr frame, NoSource)
      | Image img \<Rightarrow>
          if bg_is_video then (Inl AttributeError, Image img)
          else (composite_with cv frame img bg_color_bgr tolerance softness color_spill,
                Image img)
      | Capture cap \<Rightarrow>
          if bg_is_video then
            (case cap_read cap of
               (Some bg_frame, cap1) \<Rightarrow>
                 (composite_with cv frame bg_frame bg_color_bgr tolerance softness color_spill,
                  Capture cap1)
             | (None, cap1) \<Rightarrow>
                 (case cap_read (cap_rewind cap1) of
                    (Some bg_frame, cap2) \<Rightarrow>
                      (composite_with cv frame bg_frame bg_color_bgr tolerance softness
                         color_spill,
                       Capture cap2)
                  | (None, cap2) \<Rightarrow> (Inr frame, Capture cap2)))
          else (Inl CvError, Capture cap))"


section \<open>perform_chroma_key on objects\<close>

text \<open>
  The same function with its arguments as references to objects, to state which objects a
  call writes. The heap is the list of objects that exist; a reference is an index into it;
  a new object is put at the end. \<open>frame\<close> is a reference and \<open>bg_source\<close> is \<open>None\<close> or a
  reference. The values are computed by the definitions above. Objects are written in two
  places: the capture by \<open>read()\<close> and \<open>set()\<close>, and the array \<open>combined\<close> by the slice
  assignment of line 72. Line 40 returns the reference it was given. An argument that refers
  to an object of the wrong kind gives the exception that its first use raises; the float
  arrays are the function's own, and no argument refers to one.
\<close>

datatype obj = Frame raster | Floats "fpixel list list" | Video capture

type_synonym heap = "obj list"

definition alloc :: "heap \<Rightarrow> obj \<Rightarrow> nat \<times> heap" where
  "alloc hp ob = (length hp, hp @ [ob])"

definition floats_at :: "heap \<Rightarrow> nat \<Rightarrow> fpixel list list" where
  "floats_at hp r = (case hp ! r of Floats c \<Rightarrow> c | _ \<Rightarrow> [])"

text \<open>Lines 51 to 74 for a frame and a background array that have been read.\<close>

definition composite_refs ::
  "cv2 \<Rightarrow> heap \<Rightarrow> raster \<Rightarrow> raster \<Rightarrow> pixel \<Rightarrow> int \<Rightarrow> int \<Rightarrow> int \<Rightarrow> (error + nat) \<times> heap" where
  "composite_refs cv hp frame bg bg_color_bgr tolerance softness color_spill =
     (case resize_to cv bg (width frame) (height frame) of
        Inl e \<Rightarrow> (Inl e, hp)
      | Inr bg_resized \<Rightarrow>
          (case alpha cv frame bg_color_bgr tolerance softness of
             Inl e \<Rightarrow> (Inl e, hp)
           | Inr a \<Rightarrow>
               (let (combined, hp1) = alloc hp (Floats (combined_img a bg_resized frame));
                    hp2 = (if color_spill > 0
                           then hp1[combined :=
                                  Floats (spill_img color_spill (floats_at hp1 combined))]
                           else hp1);
                    (out, hp3) = alloc hp2 (Frame (final_img (floats_at hp2 combined)))
                in (Inr out, hp3))))"

definition perform_chroma_key_refs ::
  "cv2 \<Rightarrow> heap \<Rightarrow> nat \<Rightarrow> nat option \<Rightarrow> bool \<Rightarrow> pixel \<Rightarrow> int \<Rightarrow> int \<Rightarrow> int
     \<Rightarrow> (error + nat) \<times> heap" where
  "perform_chroma_key_refs cv hp frame bg_source bg_is_video bg_color_bgr tolerance softness
     color_spill =
     (case bg_source of
        None \<Rightarrow> (Inr frame, hp)
      | Some src \<Rightarrow>
          (case hp ! frame of
             Frame f \<Rightarrow>
               if bg_is_video then
                 (case hp ! src of
                    Video cap \<Rightarrow>
                      (case cap_read cap of
                         (Some bg_frame, cap1) \<Rightarrow>
                           composite_refs cv (hp[src := Video cap1]) f bg_frame bg_color_bgr
                             tolerance softness color_spill
                       | (None, cap1) \<Rightarrow>
                           (case cap_read (cap_rewind cap1) of
                              (Some bg_frame, cap2) \<Rightarrow>
                                composite_refs cv (hp[src := Video cap2]) f bg_frame
                                  bg_color_bgr tolerance softness color_spill
                            | (None, cap2) \<Rightarrow> (Inr frame, hp[src := Video cap2])))
                  | _ \<Rightarrow> (Inl AttributeError, hp))
               else
                 (case hp ! src of
                    Frame img \<Rightarrow>
                      composite_refs cv hp f img bg_color_bgr tolerance softness color_spill
                  | _ \<Rightarrow> (Inl CvError, hp))
           | _ \<Rightarrow> (Inl AttributeError, hp)))"

text \<open>The argument of the value-level function that a reference stands for.\<close>

definition source_of :: "heap \<Rightarrow> nat option \<Rightarrow> bg_source" where
  "source_of hp bg_source =
     (case bg_source of
        None \<Rightarrow> NoSource
      | Some src \<Rightarrow>
          (case hp ! src of Frame img \<Rightarrow> Image img | Video cap \<Rightarrow> Capture cap
           | Floats c \<Rightarrow> NoSource))"

text \<open>What a call returns: the exception, or the object its result refers to.\<close>

definition result_of :: "(error + nat) \<times> heap \<Rightarrow> error + obj" where
  "result_of r = (case fst r of Inl e \<Rightarrow> Inl e | Inr out \<Rightarrow> Inr (snd r ! out))"

text \<open>
  Every object of \<open>hp\<close>, those at the references \<open>ws\<close> apart, is in \<open>hp'\<close> as it was.
\<close>

definition unchanged_except :: "nat set \<Rightarrow> heap \<Rightarrow> heap \<Rightarrow> bool" where
  "unchanged_except ws hp hp' \<longleftrightarrow>
     length hp \<le> length hp' \<and> (\<forall>r \<in> {0..<length hp} - ws. hp' ! r = hp ! r)"

section \<open>chroma_key_gui.ChromaKeyApp\<close>

text \<open>
  \<open>cv2.convertScaleAbs(src, alpha, beta)\<close>: on each channel value the documented
  \<open>saturate_cast<uchar>(|src * alpha + beta|)\<close>, which rounds to the nearest integer (ties
  to even) and then saturates to \<open>0..255\<close>.
\<close>

definition cvRound :: "rat \<Rightarrow> int" where
  "cvRound x = rint x"

definition saturate_u8 :: "int \<Rightarrow> u8" where
  "saturate_u8 n = word_of_int (min 255 (max 0 n))"

definition convertScaleAbs_ch :: "rat \<Rightarrow> rat \<Rightarrow> u8 \<Rightarrow> u8" where
  "convertScaleAbs_ch a b x = saturate_u8 (cvRound \<bar>to_float x * a + b\<bar>)"

definition convertScaleAbs :: "raster \<Rightarrow> rat \<Rightarrow> rat \<Rightarrow> raster" where
  "convertScaleAbs src a b = map (map (map_px (convertScaleAbs_ch a b))) src"

text \<open>
  The fields of \<open>ChromaKeyApp\<close> that \<open>apply_chroma_key\<close> and the background loader read or
  write. \<open>bg_color\<close> is kept in R, G, B order; \<open>bg_video_is_reversed\<close> is the value of the
  checkbox variable and \<open>reverse_bg_check\<close> the state of the checkbox widget, which the
  loader sets with \<open>config(state=...)\<close>.
\<close>

datatype widget_state = Normal | Disabled

record app =
  bg_color :: pixel
  tolerance :: int
  softness :: int
  color_spill :: int
  fg_brightness :: int
  fg_contrast :: rat
  bg_brightness :: int
  bg_contrast :: rat
  bg_image :: "raster option"
  bg_is_video :: bool
  bg_video_is_reversed :: bool
  bg_total_frames :: int
  bg_index :: int
  bg_frames :: "raster list"
  reverse_bg_check :: widget_state

text \<open>Python's \<open>xs[i]\<close>: a negative index counts from the end, out of range raises.\<close>

definition py_index :: "'a list \<Rightarrow> int \<Rightarrow> error + 'a" where
  "py_index xs i =
     (if 0 \<le> i \<and> i < int (length xs) then Inr (xs ! nat i)
      else if - int (length xs) \<le> i \<and> i < 0 then Inr (xs ! nat (int (length xs) + i))
      else Inl IndexError)"

text \<open>Lines 436 to 443: the cursor moves before the frame is read.\<close>

definition step_index :: "app \<Rightarrow> int" where
  "step_index st =
     (if bg_video_is_reversed st
      then (let i = bg_index st - 1 in if i < 0 then bg_total_frames st - 1 else i)
      else (let i = bg_index st + 1 in if i \<ge> bg_total_frames st then 0 else i))"

text \<open>Lines 457 to 465: the call of the core, with the key colour turned into B, G, R order.\<close>

definition call_core :: "cv2 \<Rightarrow> app \<Rightarrow> raster \<Rightarrow> raster \<Rightarrow> error + raster" where
  "call_core cv st adjusted_foreground adjusted_bg =
     fst (perform_chroma_key cv adjusted_foreground (Image adjusted_bg) False
            (snd (snd (bg_color st)), fst (snd (bg_color st)), fst (bg_color st))
            (tolerance st) (softness st) (color_spill st))"

text \<open>Lines 433 to 465. The result comes with the state the call leaves.\<close>

definition apply_chroma_key :: "cv2 \<Rightarrow> app \<Rightarrow> raster \<Rightarrow> (error + raster) \<times> app" where
  "apply_chroma_key cv st frame =
     (let adjusted_foreground =
            convertScaleAbs frame (fg_contrast st) (of_int (fg_brightness st))
      in if bg_is_video st \<and> bg_frames st \<noteq> [] then
           (let st' = st\<lparr>bg_index := step_index st\<rparr>
            in case py_index (bg_frames st') (bg_index st') of
                 Inl e \<Rightarrow> (Inl e, st')
               | Inr raw_bg \<Rightarrow>
                   (call_core cv st' adjusted_foreground
                      (convertScaleAbs raw_bg (bg_contrast st') (of_int (bg_brightness st'))),
                    st'))
         else
           (case bg_image st of
              Some img \<Rightarrow>
                (call_core cv st adjusted_foreground
                   (convertScaleAbs img (bg_contrast st) (of_int (bg_brightness st))),
                 st)
            | None \<Rightarrow> (Inr adjusted_foreground, st)))"


text \<open>
  Lines 349 to 355 of \<open>_load_background_video_worker\<close>: read frames until \<open>read()\<close> fails.
\<close>

function read_all :: "capture \<Rightarrow> raster list \<Rightarrow> raster list" where
  "read_all cap temp_frames =
     (if cap_pos cap < length (cap_frames cap)
      then read_all (cap\<lparr>cap_pos := Suc (cap_pos cap)\<rparr>)
             (temp_frames @ [cap_frames cap ! cap_pos cap])
      else temp_frames)"
  by pat_completeness auto
termination
  by (relation "measure (\<lambda>(cap, _). length (cap_frames cap) - cap_pos cap)") auto

declare read_all.simps [simp del]

text \<open>
  Lines 343 to 367. \<open>opened\<close> is the capture \<open>cv2.VideoCapture(path)\<close> gives, or \<open>None\<close> when
  \<open>isOpened()\<close> is false. The first component is what \<open>_finish_loading\<close> is called with:
  the success flag and the message shown to the user.
\<close>

definition load_background_video_worker ::
  "app \<Rightarrow> capture option \<Rightarrow> (bool \<times> string) \<times> app" where
  "load_background_video_worker st opened =
     (case opened of
        None \<Rightarrow>
          ((False, ''Failed to open background video.''), st\<lparr>reverse_bg_check := Disabled\<rparr>)
      | Some cap \<Rightarrow>
          (let temp_frames = read_all cap []
           in if length temp_frames < 1
              then ((False, ''Background video has no valid frames.''),
                    st\<lparr>reverse_bg_check := Disabled\<rparr>)
              else ((True, ''Background video loaded successfully.''),
                    st\<lparr>bg_frames := temp_frames,
                       bg_total_frames := int (length temp_frames),
                       bg_index := 0,
                       bg_is_video := True,
                       reverse_bg_check := Normal\<rparr>)))"


section \<open>A concrete collaborator for evaluation\<close>

text \<open>
  To evaluate the model on concrete frames the three parameters need values. \<open>cv_ref\<close>
  provides them: the colour conversion is OpenCV's documented 8-bit formula
  (\<open>V = max\<close>, \<open>S = 255 (V - min) / V\<close>, \<open>H\<close> in half degrees), the resize samples the
  nearest source pixel, and the blur is the identity for a 1 x 1 kernel and the plain mean
  over the kernel's window for larger kernels.
\<close>

definition ref_hue :: "int \<Rightarrow> int \<Rightarrow> int \<Rightarrow> int" where
  "ref_hue b g r =
     (let v = max b (max g r); d = v - min b (min g r);
          n = (if v = r then 30 * (g - b)
               else if v = g then 60 * d + 30 * (b - r)
               else 120 * d + 30 * (r - g));
          m = (if n < 0 then n + 180 * d else n)
      in if d = 0 then 0 else ((2 * m + d) div (2 * d)) mod 180)"

definition ref_sat :: "int \<Rightarrow> int \<Rightarrow> int \<Rightarrow> int" where
  "ref_sat b g r =
     (let v = max b (max g r); d = v - min b (min g r)
      in if v = 0 then 0 else (2 * 255 * d + v) div (2 * v))"

definition ref_BGR2HSV :: "pixel \<Rightarrow> pixel" where
  "ref_BGR2HSV p =
     (let b = uint (chan 0 p); g = uint (chan 1 p); r = uint (chan 2 p)
      in (word_of_int (ref_hue b g r), word_of_int (ref_sat b g r),
          word_of_int (max b (max g r))))"

definition ref_resize :: "raster \<Rightarrow> nat \<times> nat \<Rightarrow> raster" where
  "ref_resize src dsize =
     map (\<lambda>y. map (\<lambda>x. src ! (y * height src div snd dsize) ! (x * width src div fst dsize))
                [0..<fst dsize])
       [0..<snd dsize]"

definition window_mean :: "alpha_map \<Rightarrow> nat \<Rightarrow> nat \<Rightarrow> nat \<Rightarrow> rat" where
  "window_mean a r y x = sum_list (window a r y x) / of_nat (length (window a r y x))"

definition ref_GaussianBlur :: "alpha_map \<Rightarrow> int \<Rightarrow> alpha_map" where
  "ref_GaussianBlur a k =
     (if k \<le> 1 then a
      else map (\<lambda>y. map (\<lambda>x. window_mean a (nat ((k - 1) div 2)) y x) [0..<length (a ! y)])
             [0..<length a])"

definition cv_ref :: cv2 where
  "cv_ref = \<lparr>cvtColor_BGR2HSV = ref_BGR2HSV, resize = ref_resize,
             GaussianBlur = ref_GaussianBlur\<rparr>"

text \<open>
  Objects for evaluation: a frame of one key-green pixel, an image of one pixel and an
  opened capture of two frames of one pixel.
\<close>

definition heap_ref :: heap where
  "heap_ref =
     [Frame [[(0, 255, 0)]], Frame [[(1, 1, 1)]],
      Video \<lparr>cap_frames = [[[(1, 1, 1)]], [[(2, 2, 2)]]], cap_pos = 0\<rparr>]"




text \<open>
  The fields as \<open>__init__\<close> sets them (lines 65 to 103); \<open>_setup_ui\<close> disables the
  checkbox (line 153).
\<close>

definition init_app :: app where
  "init_app =
     \<lparr>bg_color = (0, 255, 0), tolerance = 25, softness = 0, color_spill = 0,
      fg_brightness = 0, fg_contrast = 1, bg_brightness = 0, bg_contrast = 1,
      bg_image = None, bg_is_video = False, bg_video_is_reversed = False,
      bg_total_frames = 0, bg_index = 0, bg_frames = [], reverse_bg_check = Disabled\<rparr>"

text \<open>
  The state the cursor logic relies on: a video background of \<open>n\<close> frames is installed,
  \<open>bg_total_frames\<close> is their number and the cursor lies inside the sequence.
\<close>

definition cursor_ok :: "app \<Rightarrow> int \<Rightarrow> bool" where
  "cursor_ok st n \<longleftrightarrow>
     bg_is_video st \<and> 1 \<le> n \<and> int (length (bg_frames st)) = n \<and> bg_total_frames st = n \<and>
     0 \<le> bg_index st \<and> bg_index st < n"



section \<open>Rounding to an integer\<close>


lemma rint_of_int: "rint (of_int n) = n"
  by (simp add: rint_def)




section \<open>Exponent and unit in the last place\<close>

lemma powi_pos: "0 \<le> k \<Longrightarrow> (2::rat) powi k = 2 ^ nat k"
  by (simp add: power_int_def)

lemma powi_neg: "0 \<le> k \<Longrightarrow> (2::rat) powi (- k) = 1 / 2 ^ nat k"
proof -
  assume "0 \<le> k"
  then have "(2::rat) powi k = 2 ^ nat k" by (rule powi_pos)
  then show ?thesis by (simp add: power_int_minus_divide)
qed

lemma expo_bounds:
  assumes "x \<noteq> 0"
  shows "2 powi expo x \<le> \<bar>x\<bar> \<and> \<bar>x\<bar> < 2 powi (expo x + 1)"
proof (cases "1 \<le> \<bar>x\<bar>")
  case True
  let ?n = "\<lfloor>\<bar>x\<bar>\<rfloor>"
  have n: "0 < ?n" using True by simp
  have b: "1 \<le> bitlen ?n" using n by (simp add: bitlen_alt_def)
  from bitlen_bounds [OF n] have lo: "2 ^ nat (bitlen ?n - 1) \<le> ?n"
    and hi: "?n < 2 ^ nat (bitlen ?n)" by simp_all
  have e: "expo x = bitlen ?n - 1" using True by (simp add: expo_def)
  have "(2::rat) powi expo x = 2 ^ nat (bitlen ?n - 1)"
    unfolding e using b by (intro powi_pos) simp
  also have "\<dots> = of_int (2 ^ nat (bitlen ?n - 1))" by simp
  also have "\<dots> \<le> of_int ?n" using lo by (simp only: of_int_le_iff)
  also have "\<dots> \<le> \<bar>x\<bar>" by simp
  finally have 1: "2 powi expo x \<le> \<bar>x\<bar>" .
  have "?n + 1 \<le> 2 ^ nat (bitlen ?n)" using hi by simp
  then have "(of_int (?n + 1) :: rat) \<le> of_int (2 ^ nat (bitlen ?n))"
    by (simp only: of_int_le_iff)
  moreover have "\<bar>x\<bar> < of_int (?n + 1)" by linarith
  ultimately have "\<bar>x\<bar> < of_int (2 ^ nat (bitlen ?n))" by linarith
  also have "\<dots> = 2 powi (expo x + 1)" using b by (simp add: e powi_pos)
  finally show ?thesis using 1 by simp
next
  case False
  let ?m = "\<lceil>1 / \<bar>x\<bar>\<rceil>"
  let ?k = "bitlen (?m - 1)"
  have x: "0 < \<bar>x\<bar>" "\<bar>x\<bar> < 1" using assms False by simp_all
  then have inv: "1 < 1 / \<bar>x\<bar>" by simp
  then have m: "0 < ?m - 1" by (simp add: less_ceiling_iff)
  have k: "1 \<le> ?k" using m by (simp add: bitlen_alt_def)
  from bitlen_bounds [OF m] have lo: "2 ^ nat (?k - 1) \<le> ?m - 1"
    and hi: "?m - 1 < 2 ^ nat ?k" by simp_all
  have e: "expo x = - ?k" using False by (simp add: expo_def)
  have "1 / \<bar>x\<bar> \<le> of_int ?m" by simp
  also have "(of_int ?m :: rat) \<le> of_int (2 ^ nat ?k)"
  proof -
    have "?m \<le> 2 ^ nat ?k" using hi by simp
    then show ?thesis by (simp only: of_int_le_iff)
  qed
  finally have "1 / \<bar>x\<bar> \<le> 2 ^ nat ?k" by simp
  then have "1 \<le> 2 ^ nat ?k * \<bar>x\<bar>" using x(1) by (simp add: field_simps)
  then have "1 / 2 ^ nat ?k \<le> \<bar>x\<bar>" by (simp add: field_simps)
  moreover have "(2::rat) powi expo x = 1 / 2 ^ nat ?k"
    unfolding e using k by (intro powi_neg) simp
  ultimately have 1: "2 powi expo x \<le> \<bar>x\<bar>" by simp
  have "(of_int (2 ^ nat (?k - 1)) :: rat) \<le> of_int (?m - 1)"
    using lo by (simp only: of_int_le_iff)
  moreover have "of_int (?m - 1) < 1 / \<bar>x\<bar>"
    using ceiling_correct [of "1 / \<bar>x\<bar>"] by simp
  ultimately have "2 ^ nat (?k - 1) < 1 / \<bar>x\<bar>" by simp
  then have "2 ^ nat (?k - 1) * \<bar>x\<bar> < 1" using x(1) by (simp add: field_simps)
  then have "\<bar>x\<bar> < 1 / 2 ^ nat (?k - 1)" by (simp add: field_simps)
  moreover have "(2::rat) powi (expo x + 1) = 1 / 2 ^ nat (?k - 1)"
  proof -
    have "expo x + 1 = - (?k - 1)" by (simp add: e)
    moreover have "(2::rat) powi (- (?k - 1)) = 1 / 2 ^ nat (?k - 1)"
      using k by (intro powi_neg) simp
    ultimately show ?thesis by simp
  qed
  ultimately show ?thesis using 1 by simp
qed

lemma powi_two_mono: "a \<le> b \<Longrightarrow> (2::rat) powi a \<le> 2 powi b"
  by (rule power_int_increasing) simp_all

lemma powi_two_less: "(2::rat) powi a < 2 powi b \<Longrightarrow> a < b"
  using powi_two_mono [of b a] by (cases "a < b") simp_all

lemma expo_less:
  assumes "x \<noteq> 0" "\<bar>x\<bar> < 2 powi (e + 1)"
  shows "expo x \<le> e"
proof -
  from expo_bounds [OF assms(1)] assms(2) have "(2::rat) powi expo x < 2 powi (e + 1)"
    by linarith
  from powi_two_less [OF this] show ?thesis by simp
qed


lemma ulp_pos: "0 < ulp x"
  by (simp add: ulp_def)


section \<open>Rounding to float32\<close>

lemma f32_zero: "f32 0 = 0"
  by (simp add: f32_def)

lemma f32_exact:
  assumes "x / ulp x = of_int n"
  shows "f32 x = x"
proof (cases "x = 0")
  case True
  then show ?thesis by (simp add: f32_def)
next
  case False
  have "of_int (rint (x / ulp x)) * ulp x = of_int n * ulp x"
    by (simp add: assms rint_of_int)
  also have "\<dots> = x" using assms ulp_pos [of x] by (simp add: field_simps)
  finally show ?thesis using False by (simp add: f32_def)
qed




lemma f32_of_int:
  assumes "\<bar>n\<bar> < 2 ^ 24"
  shows "f32 (of_int n) = of_int n"
proof (cases "n = 0")
  case True
  then show ?thesis by (simp add: f32_def)
next
  case False
  let ?x = "of_int n :: rat"
  have x: "?x \<noteq> 0" using False by simp
  have "\<bar>?x\<bar> = of_int \<bar>n\<bar>" by simp
  also have "\<dots> < of_int (2 ^ 24)" using assms by (simp only: of_int_less_iff)
  finally have "\<bar>?x\<bar> < 2 powi (23 + 1)" by simp
  with x have hi: "expo ?x \<le> 23" by (rule expo_less)
  have "1 \<le> \<bar>n\<bar>" using False by simp
  then have "(1::rat) \<le> of_int \<bar>n\<bar>" by (simp only: of_int_1_le_iff)
  then have one: "1 \<le> \<bar>?x\<bar>" by simp
  have lo: "0 \<le> expo ?x"
  proof (rule ccontr)
    assume "\<not> 0 \<le> expo ?x"
    then have "expo ?x + 1 \<le> 0" by simp
    then have "(2::rat) powi (expo ?x + 1) \<le> 2 powi 0" by (rule powi_two_mono)
    with expo_bounds [OF x] one show False by simp
  qed
  define k where "k = nat (23 - expo ?x)"
  have "max (expo ?x) (- 126) - 23 = - (23 - expo ?x)" using lo by simp
  then have "ulp ?x = 2 powi (- (23 - expo ?x))" by (simp only: ulp_def)
  also have "\<dots> = 1 / 2 ^ k" unfolding k_def using hi by (intro powi_neg) simp
  finally have u: "ulp ?x = 1 / 2 ^ k" .
  have "?x / ulp ?x = of_int (n * 2 ^ k)" by (simp add: u)
  then show ?thesis by (rule f32_exact)
qed



section \<open>The blend of one channel in float32\<close>

lemma uint_u8_bounds: "(0::int) \<le> uint (x :: u8) \<and> uint x \<le> (255::int)"
proof -
  have "uint x < 2 ^ LENGTH(8)" by (rule uint_lt2p)
  then show ?thesis by simp
qed

lemma to_float_bounds: "0 \<le> to_float x \<and> to_float x \<le> 255"
proof -
  have "(0::rat) \<le> of_int (uint x)" "(of_int (uint x) :: rat) \<le> of_int 255"
    using uint_u8_bounds [of x] by (simp_all only: of_int_le_iff of_int_0_le_iff)
  then show ?thesis by (simp add: to_float_def)
qed

lemma f32_to_float: "f32 (to_float x) = to_float x"
proof -
  have "\<bar>uint x\<bar> < 2 ^ 24" using uint_u8_bounds [of x] by simp
  then show ?thesis unfolding to_float_def by (rule f32_of_int)
qed




section \<open>The spill subtraction in float32\<close>

lemma uint_small: "0 \<le> k \<Longrightarrow> k < 256 \<Longrightarrow> uint (word_of_int k :: u8) = k"
  by (simp add: uint_word_of_int take_bit_eq_mod)






section \<open>Shapes\<close>

lemma rect_nth: "rect h w img \<Longrightarrow> y < h \<Longrightarrow> length (img ! y) = w"
  by (simp add: rect_def)

lemma rect_height: "rect h w img \<Longrightarrow> height img = h"
  by (simp add: rect_def height_def)

lemma rect_width: "rect h w img \<Longrightarrow> 0 < h \<Longrightarrow> width img = w"
  by (cases img) (auto simp: rect_def width_def)

lemma rect_map: "rect h w img \<Longrightarrow> rect h w (map (map f) img)"
  by (auto simp: rect_def)

lemma rect_in_range_mask: "rect h w frame \<Longrightarrow> rect h w (in_range_mask cv frame lo hi)"
  by (simp add: in_range_mask_def rect_map)

lemma rect_mask_alpha: "rect h w m \<Longrightarrow> rect h w (mask_alpha m)"
  by (simp add: mask_alpha_def rect_map)

lemma rect_blurred_alpha:
  "blur_shape cv \<Longrightarrow> rect h w m \<Longrightarrow> rect h w (blurred_alpha cv m soft)"
  by (simp add: blurred_alpha_def blur_shape_def rect_mask_alpha)

lemma rect_combined_img:
  assumes "rect h w a" "rect h w bg" "rect h w frame"
  shows "rect h w (combined_img a bg frame)"
  using assms by (auto simp: rect_def combined_img_def set_zip)

lemma nth_combined_img:
  assumes "rect h w a" "rect h w bg" "rect h w frame" "y < h" "x < w"
  shows "combined_img a bg frame ! y ! x = blend_px (a ! y ! x) (bg ! y ! x) (frame ! y ! x)"
  using assms by (simp add: rect_def combined_img_def)

lemma rect_finish: "rect h w c \<Longrightarrow> rect h w (finish spill c)"
  by (simp add: finish_def final_img_def spill_img_def rect_map)

lemma nth_finish:
  assumes "rect h w c" "y < h" "x < w"
  shows "finish spill c ! y ! x =
         final_px (if 0 < spill then spill_px spill (c ! y ! x) else c ! y ! x)"
  using assms by (simp add: finish_def final_img_def spill_img_def rect_def)

section \<open>The tolerance and the 8-bit hue\<close>

lemma chroma_mask_in_range:
  assumes "0 \<le> tol" "tol \<le> 255"
  shows "chroma_mask cv frame key tol =
         Inr (in_range_mask cv frame
                (max 0 (uint (fst (cvtColor_BGR2HSV cv key) - word_of_int tol)), 50, 50)
                (min 180 (uint (fst (cvtColor_BGR2HSV cv key) + word_of_int tol)), 255, 255))"
  using assms by (simp add: chroma_mask_def lower_bound_def upper_bound_def Let_def)


lemma chroma_mask_rect:
  assumes "chroma_mask cv frame key tol = Inr msk" "rect h w frame"
  shows "rect h w msk"
  using assms
  by (auto simp: chroma_mask_def Let_def rect_in_range_mask split: sum.splits)

lemma alpha_in_range:
  assumes "0 \<le> tol" "tol \<le> 255"
  shows "\<exists>msk. chroma_mask cv frame key tol = Inr msk \<and>
               alpha cv frame key tol soft = Inr (blurred_alpha cv msk soft)"
  using chroma_mask_in_range [OF assms, of cv frame key] by (simp add: alpha_def)


lemma alpha_rect:
  assumes "alpha cv frame key tol soft = Inr a" "blur_shape cv" "rect h w frame"
  shows "rect h w a"
proof -
  from assms(1) obtain msk where m: "chroma_mask cv frame key tol = Inr msk"
    and a: "a = blurred_alpha cv msk soft"
    by (auto simp: alpha_def split: sum.splits)
  from m assms(3) have "rect h w msk" by (rule chroma_mask_rect)
  with assms(2) show ?thesis unfolding a by (rule rect_blurred_alpha)
qed

lemma composite_with_same:
  assumes "resize_same cv" "rect h w frame" "rect h w bg" "0 < h" "0 < w"
  shows "composite_with cv frame bg key tol soft spill =
         key_and_blend cv frame bg key tol soft spill"
proof -
  have "resize cv bg (w, h) = bg"
    using assms(1,3) by (simp add: resize_same_def)
  then show ?thesis
    using assms by (simp add: composite_with_def resize_to_def rect_height rect_width)
qed

lemma perform_image:
  "perform_chroma_key cv frame (Image bg) False key tol soft spill =
     (composite_with cv frame bg key tol soft spill, Image bg)"
  by (simp add: perform_chroma_key_def)


section \<open>Windows\<close>









section \<open>The concrete collaborator meets the hypotheses\<close>

lemma ref_blur_k1: "blur_k1 cv_ref"
  by (simp add: blur_k1_def cv_ref_def ref_GaussianBlur_def)


lemma ref_hue_bounds: "0 \<le> ref_hue b g r \<and> ref_hue b g r < 180"
proof -
  have "0 \<le> k mod 180 \<and> k mod 180 < 180" for k :: int
    using pos_mod_sign [of 180 k] pos_mod_bound [of 180 k] by linarith
  then show ?thesis
    unfolding ref_hue_def Let_def by (simp only: split: if_split) simp
qed

lemma ref_hue_range: "hue_range cv_ref"
proof -
  have "uint (word_of_int (ref_hue b g r) :: u8) < 180" for b g r
  proof -
    have *: "0 \<le> ref_hue b g r" "ref_hue b g r < 180"
      using ref_hue_bounds by simp_all
    then have "uint (word_of_int (ref_hue b g r) :: u8) = ref_hue b g r"
      by (intro uint_small) linarith+
    with * show ?thesis by simp
  qed
  then show ?thesis
    by (simp add: hue_range_def cv_ref_def ref_BGR2HSV_def Let_def)
qed








lemma map_nth_rows:
  assumes "rect h w src"
  shows "map (\<lambda>y. map (\<lambda>x. src ! y ! x) [0..<w]) [0..<h] = src"
proof (rule nth_equalityI)
  show "length (map (\<lambda>y. map (\<lambda>x. src ! y ! x) [0..<w]) [0..<h]) = length src"
    using assms by (simp add: rect_def)
next
  fix y assume "y < length (map (\<lambda>y. map (\<lambda>x. src ! y ! x) [0..<w]) [0..<h])"
  then have y: "y < h" by simp
  then have "length (src ! y) = w" using assms by (rule rect_nth[rotated])
  then have "map (\<lambda>x. src ! y ! x) [0..<w] = src ! y"
    by (metis map_nth)
  with y show "map (\<lambda>y. map (\<lambda>x. src ! y ! x) [0..<w]) [0..<h] ! y = src ! y"
    by simp
qed

lemma ref_resize_same: "resize_same cv_ref"
proof (unfold resize_same_def, intro allI impI)
  fix src :: raster and h w
  assume r: "rect h w src"
  have "ref_resize src (w, h) = map (\<lambda>y. map (\<lambda>x. src ! y ! x) [0..<w]) [0..<h]"
  proof (cases "h = 0")
    case True
    then show ?thesis by (simp add: ref_resize_def)
  next
    case False
    then have hw: "height src = h" "width src = w"
      using r by (simp_all add: rect_height rect_width)
    show ?thesis
      unfolding ref_resize_def hw by (simp cong: map_cong)
  qed
  with r show "resize cv_ref src (w, h) = src"
    by (simp add: map_nth_rows cv_ref_def)
qed


section \<open>Evaluation on concrete frames\<close>

lemma f32_one: "f32 1 = 1"
  using f32_of_int [of 1] by simp

lemma f32_numeral: "numeral n < (2::int) ^ 24 \<Longrightarrow> f32 (numeral n) = numeral n"
  using f32_of_int [of "numeral n"] by simp

lemma f32_neg_numeral: "numeral n < (2::int) ^ 24 \<Longrightarrow> f32 (- numeral n) = - numeral n"
  using f32_of_int [of "- numeral n"] by simp

lemmas core_defs =
  perform_chroma_key_def composite_with_def resize_to_def height_def width_def
  key_and_blend_def alpha_def chroma_mask_def in_range_mask_def mask_alpha_def
  blurred_alpha_def blur_size_def combined_img_def finish_def final_img_def spill_img_def
  inRange_def lower_bound_def upper_bound_def chan_def blend_px_def blend_ch_def spill_px_def
  final_px_def map_px_def clip_def astype_uint8_def to_float_def
  cap_read_def cap_rewind_def f32_zero f32_one f32_numeral f32_neg_numeral

lemmas ref_defs =
  cv_ref_def ref_BGR2HSV_def ref_hue_def ref_sat_def ref_resize_def
  ref_GaussianBlur_def


section \<open>No background (C10)\<close>

text \<open>
  C10. When \<open>bg_source\<close> is \<open>None\<close>, \<open>perform_chroma_key\<close> returns the foreground frame
  unchanged, whatever the other arguments are: no keying, no blur, no spill suppression,
  no exception.
\<close>

theorem no_background_returns_frame:
  "perform_chroma_key cv frame NoSource is_video key tol soft spill = (Inr frame, NoSource)"
  by (simp add: perform_chroma_key_def)

text \<open>At a frame with a strong green channel and \<open>color_spill = 40\<close>.\<close>

theorem no_background_returns_frame_witness:
  "perform_chroma_key cv_ref [[(10, 200, 30)]] NoSource False (0, 255, 0) 25 3 40 =
     (Inr [[(10, 200, 30)]], NoSource)"
  using no_background_returns_frame [of cv_ref "[[(10, 200, 30)]]" False "(0, 255, 0)" 25 3 40]
  by simp


section \<open>The background cursor (C6)\<close>










section \<open>Brightness and contrast (C4)\<close>

lemma uint_saturate_u8: "uint (saturate_u8 n) = min 255 (max 0 n)"
  unfolding saturate_u8_def by (intro uint_small) simp_all

text \<open>
  What the adjustment computes on a channel: the rounded absolute value of the affine
  remap, saturated at 255. Where the remap is not negative this is the remap rounded and
  clamped to \<open>0..255\<close>.
\<close>

lemma convertScaleAbs_ch_value:
  "uint (convertScaleAbs_ch a b x) = min 255 (cvRound \<bar>to_float x * a + b\<bar>)"
proof -
  have "0 \<le> cvRound q" if "0 \<le> q" for q
  proof -
    have "0 \<le> \<lfloor>q\<rfloor>" using that by simp
    then show ?thesis by (simp add: cvRound_def rint_def Let_def)
  qed
  then have "0 \<le> cvRound \<bar>to_float x * a + b\<bar>" by simp
  then show ?thesis by (simp add: convertScaleAbs_ch_def uint_saturate_u8)
qed

lemma convertScaleAbs_ch_nonneg:
  "0 \<le> to_float x * a + b \<Longrightarrow>
   uint (convertScaleAbs_ch a b x) = min 255 (max 0 (cvRound (to_float x * a + b)))"
  by (simp add: convertScaleAbs_ch_def uint_saturate_u8)

text \<open>Foreground and background are adjusted separately, each with its own parameters.\<close>

lemma apply_chroma_key_adjusts_both:
  assumes "\<not> bg_is_video st" "bg_image st = Some img"
  shows "apply_chroma_key cv st frame =
         (call_core cv st
            (convertScaleAbs frame (fg_contrast st) (of_int (fg_brightness st)))
            (convertScaleAbs img (bg_contrast st) (of_int (bg_brightness st))), st)"
  using assms by (simp add: apply_chroma_key_def)

text \<open>
  C4 at a failing input. Foreground brightness \<open>-50\<close>, contrast 1, no background loaded:
  \<open>apply_chroma_key\<close> returns the adjusted foreground. A channel value of 10 becomes 40,
  the absolute value of \<open>10 - 50\<close>, where the claim's \<open>clamp(10 * 1 - 50, 0, 255)\<close> is 0.
\<close>

theorem negative_brightness_is_mirrored:
  "fst (apply_chroma_key cv_ref (init_app\<lparr>fg_brightness := - 50\<rparr>) [[(10, 10, 10)]]) =
     Inr [[(40, 40, 40)]] \<and>
   clip (to_float 10 * fg_contrast (init_app\<lparr>fg_brightness := - 50\<rparr>) +
         of_int (fg_brightness (init_app\<lparr>fg_brightness := - 50\<rparr>))) 0 255 = 0"
  by (simp add: apply_chroma_key_def init_app_def convertScaleAbs_def convertScaleAbs_ch_def
      cvRound_def rint_def saturate_u8_def map_px_def to_float_def clip_def Let_def)


section \<open>Pixels under a binary alpha\<close>

lemma astype_to_float: "astype_uint8 (clip (to_float x) 0 255) = x"
proof -
  have "clip (to_float x) 0 255 = to_float x"
    using to_float_bounds [of x] by (simp add: clip_def)
  moreover have "astype_uint8 (to_float x) = x"
  proof -
    have "\<not> uint x < 0" using uint_u8_bounds [of x] by linarith
    then show ?thesis
      unfolding astype_uint8_def to_float_def
      by (simp only: of_int_less_0_iff if_False floor_of_int word_of_int_uint)
  qed
  ultimately show ?thesis by simp
qed

lemma blend_ch_one: "blend_ch 1 b f = to_float b"
  by (simp add: blend_ch_def f32_zero f32_to_float)

lemma blend_ch_zero: "blend_ch 0 b f = to_float f"
  by (simp add: blend_ch_def f32_zero f32_one f32_to_float)

lemma final_blend_one: "final_px (blend_px 1 bgp fp) = bgp"
  by (simp add: final_px_def blend_px_def blend_ch_one map_px_def chan_def astype_to_float)

lemma final_blend_zero: "final_px (blend_px 0 bgp fp) = fp"
  by (simp add: final_px_def blend_px_def blend_ch_zero map_px_def chan_def astype_to_float)

lemma nth_in_range_mask:
  assumes "rect h w frame" "y < h" "x < w"
  shows "in_range_mask cv frame lo hi ! y ! x = inRange (cvtColor_BGR2HSV cv (frame ! y ! x)) lo hi"
  using assms by (simp add: in_range_mask_def rect_def)

lemma nth_mask_alpha:
  assumes "rect h w m" "y < h" "x < w"
  shows "mask_alpha m ! y ! x = f32 (to_float (m ! y ! x) / 255)"
  using assms by (simp add: mask_alpha_def rect_def)

lemma mask_alpha_255: "f32 (to_float 255 / 255) = 1"
  by (simp add: to_float_def f32_one)


lemma blurred_alpha_unblurred:
  "blur_k1 cv \<Longrightarrow> soft \<le> 0 \<Longrightarrow> blurred_alpha cv msk soft = mask_alpha msk"
  by (simp add: blurred_alpha_def blur_size_def blur_k1_def max_def)





text \<open>
  The mask without wrap-around: when the tolerance is at most the key hue (and the key hue
  plus the tolerance at most 255) the 8-bit difference and sum are the integer ones.
\<close>

lemma bounds_without_wrap:
  fixes k :: pixel
  assumes "0 \<le> tol" "tol \<le> uint (fst k)" "uint (fst k) + tol \<le> 255"
  shows "lower_bound k tol = Inr (uint (fst k) - tol, 50, 50)"
    and "upper_bound k tol = Inr (min 180 (uint (fst k) + tol), 255, 255)"
proof -
  have t: "tol \<le> 255" using assms uint_u8_bounds [of "fst k"] by linarith
  have "uint (fst k - word_of_int tol) = (uint (fst k) - tol) mod 256"
    by (simp add: uint_word_arith_bintrs take_bit_eq_mod uint_word_of_int mod_diff_right_eq)
  also have "\<dots> = uint (fst k) - tol" using assms uint_u8_bounds [of "fst k"] by simp
  finally have lo: "uint (fst k - word_of_int tol) = uint (fst k) - tol" .
  have "uint (fst k + word_of_int tol) = (uint (fst k) + tol) mod 256"
    by (simp add: uint_word_arith_bintrs take_bit_eq_mod uint_word_of_int mod_add_right_eq)
  also have "\<dots> = uint (fst k) + tol" using assms uint_u8_bounds [of "fst k"] by simp
  finally have hi: "uint (fst k + word_of_int tol) = uint (fst k) + tol" .
  show "lower_bound k tol = Inr (uint (fst k) - tol, 50, 50)"
    using assms t by (simp add: lower_bound_def lo)
  show "upper_bound k tol = Inr (min 180 (uint (fst k) + tol), 255, 255)"
    using assms t by (simp add: upper_bound_def hi)
qed

lemma inRange_key:
  fixes k :: pixel
  assumes "uint (fst k) < (180::int)" "(50::int) \<le> uint (chan 1 k)"
    "(50::int) \<le> uint (chan 2 k)" "0 \<le> tol"
  shows "inRange k (uint (fst k) - tol, 50, 50) (min 180 (uint (fst k) + tol), 255, 255) = 255"
  using assms uint_u8_bounds [of "chan 1 k"] uint_u8_bounds [of "chan 2 k"]
  by (simp add: inRange_def chan_def)


section \<open>Full replacement of a uniform key-coloured frame (C2)\<close>

lemma uniform_key_replaced:
  assumes "resize_same cv" and "blur_k1 cv" and "hue_range cv"
    and "rect h w frame" and "rect h w bg" and "0 < h" and "0 < w"
    and "\<forall>r \<in> set frame. \<forall>p \<in> set r. p = key"
    and "(50::int) \<le> uint (chan 1 (cvtColor_BGR2HSV cv key))"
    and "(50::int) \<le> uint (chan 2 (cvtColor_BGR2HSV cv key))"
    and "0 \<le> tol" and "tol \<le> uint (fst (cvtColor_BGR2HSV cv key))"
    and "uint (fst (cvtColor_BGR2HSV cv key)) + tol \<le> 255"
    and "soft \<le> 0" and "spill \<le> 0"
  shows "perform_chroma_key cv frame (Image bg) False key tol soft spill = (Inr bg, Image bg)"
proof -
  let ?k = "cvtColor_BGR2HSV cv key"
  let ?lo = "(uint (fst ?k) - tol, 50, 50) :: int \<times> int \<times> int"
  let ?hi = "(min 180 (uint (fst ?k) + tol), 255, 255) :: int \<times> int \<times> int"
  let ?m = "in_range_mask cv frame ?lo ?hi"
  let ?a = "mask_alpha ?m"
  have hue: "uint (fst ?k) < (180::int)"
    using assms(3) unfolding hue_range_def by (rule spec)
  have px: "frame ! y ! x = key" if "y < h" "x < w" for y x
  proof -
    have "frame ! y \<in> set frame" using assms(4) that(1) by (simp add: rect_def)
    moreover have "frame ! y ! x \<in> set (frame ! y)"
      using rect_nth [OF assms(4) that(1)] that(2) by simp
    ultimately show ?thesis using assms(8) by blast
  qed
  have cm: "chroma_mask cv frame key tol = Inr ?m"
    unfolding chroma_mask_def Let_def bounds_without_wrap [OF assms(11,12,13)] by simp
  have al: "alpha cv frame key tol soft = Inr ?a"
    unfolding alpha_def cm using assms(2,14) by (simp add: blurred_alpha_unblurred)
  have rm: "rect h w ?m" using assms(4) by (rule rect_in_range_mask)
  have ra: "rect h w ?a" using rm by (rule rect_mask_alpha)
  have one: "?a ! y ! x = 1" if "y < h" "x < w" for y x
  proof -
    have "?m ! y ! x = 255"
      unfolding nth_in_range_mask [OF assms(4) that] px [OF that]
      using hue assms(9,10,11) by (rule inRange_key)
    then show ?thesis
      unfolding nth_mask_alpha [OF rm that] by (simp add: mask_alpha_255)
  qed
  let ?c = "combined_img ?a bg frame"
  let ?out = "finish spill ?c"
  have rc: "rect h w ?c" using ra assms(5,4) by (rule rect_combined_img)
  have ro: "rect h w ?out" using rc by (rule rect_finish)
  have "?out = bg"
  proof (rule nth_equalityI)
    show "length ?out = length bg" using ro assms(5) by (simp add: rect_def)
  next
    fix y assume "y < length ?out"
    then have y: "y < h" using ro by (simp add: rect_def)
    show "?out ! y = bg ! y"
    proof (rule nth_equalityI)
      show "length (?out ! y) = length (bg ! y)"
        using rect_nth [OF ro y] rect_nth [OF assms(5) y] by simp
    next
      fix x assume "x < length (?out ! y)"
      then have x: "x < w" using rect_nth [OF ro y] by simp
      show "?out ! y ! x = bg ! y ! x"
        unfolding nth_finish [OF rc y x] nth_combined_img [OF ra assms(5,4) y x] one [OF y x]
        using assms(15) by (simp add: final_blend_one)
    qed
  qed
  then have "key_and_blend cv frame bg key tol soft spill = Inr bg"
    by (simp add: key_and_blend_def al)
  then show ?thesis
    using composite_with_same [OF assms(1,4,5,6,7)] by (simp add: perform_chroma_key_def)
qed

text \<open>
  C2, as amended. When every pixel of the foreground equals the key colour, the key colour's
  saturation and value (after the HSV conversion) are both at least 50, and tolerance,
  softness and spill are all 0, \<open>perform_chroma_key\<close> returns the equal-sized background
  exactly. In particular, with pure green converting to hue 60, saturation 255 and value
  255 (as OpenCV does), a 2 x 2 frame of pure green over a 2 x 2 background of
  \<open>(255, 0, 0)\<close> with tolerance 10 comes back as that background. The hypotheses on the
  collaborator: resizing to the same size and blurring with a 1 x 1 kernel are the identity,
  and a hue is below 180.
\<close>

theorem uniform_key_frame_gives_background:
  assumes "resize_same cv" and "blur_k1 cv" and "hue_range cv"
  shows "(rect h w frame \<and> rect h w bg \<and> 0 < h \<and> 0 < w \<and>
          (\<forall>r \<in> set frame. \<forall>p \<in> set r. p = key) \<and>
          (50::int) \<le> uint (chan 1 (cvtColor_BGR2HSV cv key)) \<and>
          (50::int) \<le> uint (chan 2 (cvtColor_BGR2HSV cv key)) \<longrightarrow>
          perform_chroma_key cv frame (Image bg) False key 0 0 0 = (Inr bg, Image bg)) \<and>
         (cvtColor_BGR2HSV cv (0, 255, 0) = (60, 255, 255) \<longrightarrow>
          perform_chroma_key cv [[(0, 255, 0), (0, 255, 0)], [(0, 255, 0), (0, 255, 0)]]
            (Image [[(255, 0, 0), (255, 0, 0)], [(255, 0, 0), (255, 0, 0)]]) False
            (0, 255, 0) 10 0 0 =
          (Inr [[(255, 0, 0), (255, 0, 0)], [(255, 0, 0), (255, 0, 0)]],
           Image [[(255, 0, 0), (255, 0, 0)], [(255, 0, 0), (255, 0, 0)]]))"
proof (intro conjI impI)
  assume a: "rect h w frame \<and> rect h w bg \<and> 0 < h \<and> 0 < w \<and>
          (\<forall>r \<in> set frame. \<forall>p \<in> set r. p = key) \<and>
          (50::int) \<le> uint (chan 1 (cvtColor_BGR2HSV cv key)) \<and>
          (50::int) \<le> uint (chan 2 (cvtColor_BGR2HSV cv key))"
  have "(0::int) \<le> uint (fst (cvtColor_BGR2HSV cv key))"
    "uint (fst (cvtColor_BGR2HSV cv key)) + 0 \<le> (255::int)"
    using uint_u8_bounds [of "fst (cvtColor_BGR2HSV cv key)"] by simp_all
  with a show "perform_chroma_key cv frame (Image bg) False key 0 0 0 = (Inr bg, Image bg)"
    by (intro uniform_key_replaced [OF assms, of h w]) simp_all
next
  assume g: "cvtColor_BGR2HSV cv (0, 255, 0) = (60, 255, 255)"
  let ?f = "[[(0, 255, 0), (0, 255, 0)], [(0, 255, 0), (0, 255, 0)]] :: raster"
  let ?b = "[[(255, 0, 0), (255, 0, 0)], [(255, 0, 0), (255, 0, 0)]] :: raster"
  have f: "rect 2 2 ?f" and b: "rect 2 2 ?b" by (simp_all add: rect_def)
  have u: "\<forall>r \<in> set ?f. \<forall>p \<in> set r. p = (0, 255, 0)" by simp
  show "perform_chroma_key cv ?f (Image ?b) False (0, 255, 0) 10 0 0 = (Inr ?b, Image ?b)"
    by (rule uniform_key_replaced [OF assms f b _ _ u]) (simp_all add: g chan_def)
qed

text \<open>
  With the concrete collaborator: a 1 x 2 frame of the orange \<open>(30, 120, 240)\<close> keyed on that
  colour with tolerance 0, and the 2 x 2 scenario with tolerance 10.
\<close>

theorem uniform_key_frame_gives_background_witness:
  "resize_same cv_ref \<and> blur_k1 cv_ref \<and> hue_range cv_ref \<and>
   cvtColor_BGR2HSV cv_ref (30, 120, 240) = (13, 223, 240) \<and>
   perform_chroma_key cv_ref [[(30, 120, 240), (30, 120, 240)]]
     (Image [[(1, 2, 3), (4, 5, 6)]]) False (30, 120, 240) 0 0 0 =
     (Inr [[(1, 2, 3), (4, 5, 6)]], Image [[(1, 2, 3), (4, 5, 6)]]) \<and>
   cvtColor_BGR2HSV cv_ref (0, 255, 0) = (60, 255, 255) \<and>
   perform_chroma_key cv_ref [[(0, 255, 0), (0, 255, 0)], [(0, 255, 0), (0, 255, 0)]]
     (Image [[(255, 0, 0), (255, 0, 0)], [(255, 0, 0), (255, 0, 0)]]) False (0, 255, 0) 10 0 0 =
   (Inr [[(255, 0, 0), (255, 0, 0)], [(255, 0, 0), (255, 0, 0)]],
    Image [[(255, 0, 0), (255, 0, 0)], [(255, 0, 0), (255, 0, 0)]])"
proof -
  let ?f = "[[(30, 120, 240), (30, 120, 240)]] :: raster"
  let ?b = "[[(1, 2, 3), (4, 5, 6)]] :: raster"
  note t = uniform_key_frame_gives_background [OF ref_resize_same ref_blur_k1 ref_hue_range,
      of 1 2 ?f ?b "(30, 120, 240)"]
  have k: "cvtColor_BGR2HSV cv_ref (30, 120, 240) = (13, 223, 240)"
    by (simp add: ref_defs chan_def Let_def)
  have g: "cvtColor_BGR2HSV cv_ref (0, 255, 0) = (60, 255, 255)"
    by (simp add: ref_defs chan_def Let_def)
  have h: "rect 1 2 ?f \<and> rect 1 2 ?b \<and> 0 < (1::nat) \<and> 0 < (2::nat) \<and>
          (\<forall>r \<in> set ?f. \<forall>p \<in> set r. p = (30, 120, 240)) \<and>
          (50::int) \<le> uint (chan 1 (cvtColor_BGR2HSV cv_ref (30, 120, 240))) \<and>
          (50::int) \<le> uint (chan 2 (cvtColor_BGR2HSV cv_ref (30, 120, 240)))"
    unfolding k by (simp add: rect_def chan_def)
  from t h have a: "perform_chroma_key cv_ref ?f (Image ?b) False (30, 120, 240) 0 0 0 =
     (Inr ?b, Image ?b)" by blast
  from t g have b: "perform_chroma_key cv_ref
     [[(0, 255, 0), (0, 255, 0)], [(0, 255, 0), (0, 255, 0)]]
     (Image [[(255, 0, 0), (255, 0, 0)], [(255, 0, 0), (255, 0, 0)]]) False (0, 255, 0) 10 0 0 =
   (Inr [[(255, 0, 0), (255, 0, 0)], [(255, 0, 0), (255, 0, 0)]],
    Image [[(255, 0, 0), (255, 0, 0)], [(255, 0, 0), (255, 0, 0)]])" by blast
  show ?thesis by (intro conjI ref_resize_same ref_blur_k1 ref_hue_range k a g b)
qed

text \<open>
  C2 as stated (for every key colour) fails for a key colour of low saturation or value.
  A black frame keyed on black over a white background, with tolerance, softness and spill
  all 0, comes back black: nothing is replaced.
\<close>

theorem black_key_is_not_replaced:
  "fst (perform_chroma_key cv_ref [[(0, 0, 0)]] (Image [[(255, 255, 255)]]) False
          (0, 0, 0) 0 0 0) = Inr [[(0, 0, 0)]] \<and>
   fst (perform_chroma_key cv_ref [[(0, 0, 0)]] (Image [[(255, 255, 255)]]) False
          (0, 0, 0) 0 0 0) \<noteq> Inr [[(255, 255, 255)]]"
  by (simp add: core_defs ref_defs Let_def)


section \<open>The compositing formula (C1)\<close>



text \<open>
  The rounding is visible in the result: with alpha the \<open>float32\<close> nearest to 1/3, a white
  pixel over a white pixel blends to a value just below 255 and comes back as 254.
\<close>

lemma blend_rounds_in_float32:
  "f32 (1 / 3) = 11184811 / 2 ^ 25 \<and>
   blend_ch (f32 (1 / 3)) 255 255 < 255 \<and>
   final_px (blend_px (f32 (1 / 3)) (255, 255, 255) (255, 255, 255)) = (254, 254, 254)"
  by code_simp




section \<open>The binary mask (C3)\<close>

text \<open>
  Where nothing wraps the mask is the clamped interval with the threshold: for a tolerance from
  0 to the key hue, with the key hue plus the tolerance at most 255, a pixel of the mask is
  255 exactly when the pixel's hue lies between \<open>max 0 (keyHue - tolerance)\<close> and
  \<open>min 180 (keyHue + tolerance)\<close> and its saturation and value both exceed 49.
\<close>

lemma mask_without_wrap:
  assumes "rect h w frame" and "y < h" and "x < w"
    and "0 \<le> tol" and "tol \<le> uint (fst (cvtColor_BGR2HSV cv key))"
    and "uint (fst (cvtColor_BGR2HSV cv key)) + tol \<le> 255"
  shows "\<exists>msk. chroma_mask cv frame key tol = Inr msk \<and>
           msk ! y ! x =
              (let p = cvtColor_BGR2HSV cv (frame ! y ! x);
                   keyHue = uint (chan 0 (cvtColor_BGR2HSV cv key))
               in if max 0 (keyHue - tol) \<le> uint (chan 0 p) \<and>
                     uint (chan 0 p) \<le> min 180 (keyHue + tol) \<and>
                     (49::int) < uint (chan 1 p) \<and> (49::int) < uint (chan 2 p)
                  then 255 else 0)"
proof -
  let ?k = "cvtColor_BGR2HSV cv key"
  let ?p = "cvtColor_BGR2HSV cv (frame ! y ! x)"
  have cm: "chroma_mask cv frame key tol =
          Inr (in_range_mask cv frame (uint (fst ?k) - tol, 50, 50)
                 (min 180 (uint (fst ?k) + tol), 255, 255))"
    unfolding chroma_mask_def Let_def bounds_without_wrap [OF assms(4,5,6)] by simp
  have "uint (chan 1 ?p) \<le> (255::int)" "uint (chan 2 ?p) \<le> (255::int)"
    using uint_u8_bounds by blast+
  then have "in_range_mask cv frame (uint (fst ?k) - tol, 50, 50)
                 (min 180 (uint (fst ?k) + tol), 255, 255) ! y ! x =
              (let p = ?p; keyHue = uint (chan 0 ?k)
               in if max 0 (keyHue - tol) \<le> uint (chan 0 p) \<and>
                     uint (chan 0 p) \<le> min 180 (keyHue + tol) \<and>
                     (49::int) < uint (chan 1 p) \<and> (49::int) < uint (chan 2 p)
                  then 255 else 0)"
    unfolding nth_in_range_mask [OF assms(1,2,3)] using assms(5)
    by (auto simp: inRange_def chan_def Let_def)
  with cm show ?thesis by simp
qed

text \<open>
  C3 at failing inputs. A pure red frame keyed on pure red (hue 0, saturation and value 255)
  with tolerance 25, the default of the interface. The claim's interval is
  \<open>[max 0 (0 - 25), min 180 (0 + 25)] = [0, 25]\<close>, which holds the pixel's hue 0, and
  saturation and value exceed 49: the pixel is key. In the code the difference \<open>0 - 25\<close> is
  computed in 8 bits and is 231, \<open>max(0, 231)\<close> clamps nothing, the bounds \<open>[231, 25]\<close>
  hold no hue, the mask is 0 and the frame comes back as it was. With pure green (hue 60)
  and tolerance 100, the largest the slider gives, the lower bound is 216 and again nothing
  is keyed. With tolerance 500 or \<open>-1\<close> the call raises \<open>OverflowError\<close>.
\<close>

theorem tolerance_wraps_in_8_bits:
  "cvtColor_BGR2HSV cv_ref (0, 0, 255) = (0, 255, 255) \<and>
   (max 0 (uint (chan 0 (cvtColor_BGR2HSV cv_ref (0, 0, 255))) - 25)
      \<le> uint (chan 0 (cvtColor_BGR2HSV cv_ref (0, 0, 255))) \<and>
    uint (chan 0 (cvtColor_BGR2HSV cv_ref (0, 0, 255)))
      \<le> min 180 (uint (chan 0 (cvtColor_BGR2HSV cv_ref (0, 0, 255))) + 25) \<and>
    (49::int) < uint (chan 1 (cvtColor_BGR2HSV cv_ref (0, 0, 255))) \<and>
    (49::int) < uint (chan 2 (cvtColor_BGR2HSV cv_ref (0, 0, 255)))) \<and>
   lower_bound (cvtColor_BGR2HSV cv_ref (0, 0, 255)) 25 = Inr (231, 50, 50) \<and>
   upper_bound (cvtColor_BGR2HSV cv_ref (0, 0, 255)) 25 = Inr (25, 255, 255) \<and>
   chroma_mask cv_ref [[(0, 0, 255)]] (0, 0, 255) 25 = Inr [[0]] \<and>
   fst (perform_chroma_key cv_ref [[(0, 0, 255)]] (Image [[(255, 0, 0)]]) False
          (0, 0, 255) 25 0 0) = Inr [[(0, 0, 255)]] \<and>
   lower_bound (cvtColor_BGR2HSV cv_ref (0, 255, 0)) 100 = Inr (216, 50, 50) \<and>
   fst (perform_chroma_key cv_ref [[(0, 255, 0)]] (Image [[(255, 0, 0)]]) False
          (0, 255, 0) 100 0 0) = Inr [[(0, 255, 0)]] \<and>
   fst (perform_chroma_key cv_ref [[(0, 0, 255)]] (Image [[(255, 0, 0)]]) False
          (0, 0, 255) 500 0 0) = Inl OverflowError \<and>
   fst (perform_chroma_key cv_ref [[(0, 0, 255)]] (Image [[(255, 0, 0)]]) False
          (0, 0, 255) (- 1) 0 0) = Inl OverflowError"
  by (simp add: core_defs ref_defs Let_def)


section \<open>Spill suppression (C5)\<close>




section \<open>Empty background videos (C7)\<close>

lemma read_all_drop:
  "read_all cap temp_frames = temp_frames @ drop (cap_pos cap) (cap_frames cap)"
proof (induction cap temp_frames rule: read_all.induct)
  case (1 cap temp_frames)
  show ?case
  proof (cases "cap_pos cap < length (cap_frames cap)")
    case True
    then have "drop (cap_pos cap) (cap_frames cap) =
               cap_frames cap ! cap_pos cap # drop (Suc (cap_pos cap)) (cap_frames cap)"
      by (simp add: Cons_nth_drop_Suc)
    with True 1 show ?thesis by (simp add: read_all.simps [of cap])
  next
    case False
    then show ?thesis by (simp add: read_all.simps [of cap])
  qed
qed

text \<open>
  C7, as amended. A background video with no decodable frame is rejected when it is loaded:
  the loader reports failure with the message "Background video has no valid frames.",
  installs no frame list and changes nothing in the state but the reverse-playback
  checkbox, which it disables. A load that succeeds installs a non-empty frame list with the
  cursor at 0 and enables the checkbox, so the stepping of \<open>apply_chroma_key\<close> never meets an
  empty list. But \<open>perform_chroma_key\<close>, given a video capture that yields no frame even
  after rewinding, returns the foreground unchanged and reports nothing.
\<close>

theorem empty_video_rejected_at_load:
  "(cap_frames cap = [] \<longrightarrow>
      load_background_video_worker st (Some cap) =
        ((False, ''Background video has no valid frames.''),
         st\<lparr>reverse_bg_check := Disabled\<rparr>)) \<and>
   (fst (fst (load_background_video_worker st opened)) \<longrightarrow>
      bg_frames (snd (load_background_video_worker st opened)) \<noteq> [] \<and>
      bg_index (snd (load_background_video_worker st opened)) = 0 \<and>
      reverse_bg_check (snd (load_background_video_worker st opened)) = Normal \<and>
      cursor_ok (snd (load_background_video_worker st opened))
        (int (length (bg_frames (snd (load_background_video_worker st opened)))))) \<and>
   (cap_frames cap = [] \<longrightarrow>
      perform_chroma_key cv frame (Capture cap) True key tol soft spill =
        (Inr frame, Capture (cap_rewind cap)))"
proof (intro conjI impI)
  assume "cap_frames cap = []"
  then show "load_background_video_worker st (Some cap) =
               ((False, ''Background video has no valid frames.''),
                st\<lparr>reverse_bg_check := Disabled\<rparr>)"
    by (simp add: load_background_video_worker_def read_all_drop)
next
  assume ok: "fst (fst (load_background_video_worker st opened))"
  then obtain c where c: "opened = Some c"
    by (cases opened) (simp_all add: load_background_video_worker_def)
  let ?fs = "read_all c []"
  from ok have ne: "?fs \<noteq> []"
    by (auto simp: c load_background_video_worker_def Let_def split: if_splits)
  then have st': "snd (load_background_video_worker st opened) =
      st\<lparr>bg_frames := ?fs, bg_total_frames := int (length ?fs), bg_index := 0,
         bg_is_video := True, reverse_bg_check := Normal\<rparr>"
    by (simp add: c load_background_video_worker_def Let_def)
  show "bg_frames (snd (load_background_video_worker st opened)) \<noteq> []"
    unfolding st' using ne by simp
  show "bg_index (snd (load_background_video_worker st opened)) = 0"
    unfolding st' by simp
  show "reverse_bg_check (snd (load_background_video_worker st opened)) = Normal"
    unfolding st' by simp
  have "1 \<le> int (length ?fs)" using ne by (cases ?fs) simp_all
  then show "cursor_ok (snd (load_background_video_worker st opened))
          (int (length (bg_frames (snd (load_background_video_worker st opened)))))"
    unfolding st' using ne by (simp add: cursor_ok_def)
next
  assume "cap_frames cap = []"
  then show "perform_chroma_key cv frame (Capture cap) True key tol soft spill =
               (Inr frame, Capture (cap_rewind cap))"
    by (simp add: perform_chroma_key_def cap_read_def cap_rewind_def)
qed

text \<open>
  An opened capture without frames is rejected by the loader, also when a video of two
  frames was loaded before (its frames stay, the checkbox is disabled); a capture with two
  frames is installed; the core call on the empty capture returns the foreground.
\<close>

theorem empty_video_rejected_at_load_witness:
  "load_background_video_worker init_app (Some \<lparr>cap_frames = [], cap_pos = 0\<rparr>) =
     ((False, ''Background video has no valid frames.''), init_app) \<and>
   load_background_video_worker
     (init_app\<lparr>bg_frames := [[[(1, 1, 1)]], [[(2, 2, 2)]]], bg_total_frames := 2,
                bg_is_video := True, reverse_bg_check := Normal\<rparr>)
     (Some \<lparr>cap_frames = [], cap_pos = 0\<rparr>) =
     ((False, ''Background video has no valid frames.''),
      init_app\<lparr>bg_frames := [[[(1, 1, 1)]], [[(2, 2, 2)]]], bg_total_frames := 2,
                bg_is_video := True, reverse_bg_check := Disabled\<rparr>) \<and>
   fst (fst (load_background_video_worker init_app
               (Some \<lparr>cap_frames = [[[(1, 1, 1)]], [[(2, 2, 2)]]], cap_pos = 0\<rparr>))) \<and>
   bg_frames (snd (load_background_video_worker init_app
               (Some \<lparr>cap_frames = [[[(1, 1, 1)]], [[(2, 2, 2)]]], cap_pos = 0\<rparr>))) =
     [[[(1, 1, 1)]], [[(2, 2, 2)]]] \<and>
   reverse_bg_check (snd (load_background_video_worker init_app
               (Some \<lparr>cap_frames = [[[(1, 1, 1)]], [[(2, 2, 2)]]], cap_pos = 0\<rparr>))) = Normal \<and>
   cursor_ok (snd (load_background_video_worker init_app
               (Some \<lparr>cap_frames = [[[(1, 1, 1)]], [[(2, 2, 2)]]], cap_pos = 0\<rparr>))) 2 \<and>
   perform_chroma_key cv_ref [[(1, 2, 3)]] (Capture \<lparr>cap_frames = [], cap_pos = 0\<rparr>) True
     (0, 255, 0) 10 0 0 =
     (Inr [[(1, 2, 3)]], Capture \<lparr>cap_frames = [], cap_pos = 0\<rparr>)"
proof -
  let ?e = "\<lparr>cap_frames = [], cap_pos = 0\<rparr>"
  let ?c = "\<lparr>cap_frames = [[[(1, 1, 1)]], [[(2, 2, 2)]]], cap_pos = 0\<rparr>"
  let ?st = "init_app\<lparr>bg_frames := [[[(1, 1, 1)]], [[(2, 2, 2)]]], bg_total_frames := 2,
                bg_is_video := True, reverse_bg_check := Normal\<rparr>"
  note t1 = empty_video_rejected_at_load
    [of ?e init_app "Some ?c" cv_ref "[[(1, 2, 3)]]" "(0, 255, 0)" 10 0 0]
  note t2 = empty_video_rejected_at_load
    [of ?e ?st "Some ?c" cv_ref "[[(1, 2, 3)]]" "(0, 255, 0)" 10 0 0]
  have ok: "fst (fst (load_background_video_worker init_app (Some ?c)))"
    by (simp add: load_background_video_worker_def read_all_drop)
  have fs: "bg_frames (snd (load_background_video_worker init_app (Some ?c))) =
              [[[(1, 1, 1)]], [[(2, 2, 2)]]]"
    by (simp add: load_background_video_worker_def read_all_drop)
  from t1 have a: "load_background_video_worker init_app (Some ?e) =
     ((False, ''Background video has no valid frames.''), init_app)"
    by (simp add: init_app_def)
  from t2 have a2: "load_background_video_worker ?st (Some ?e) =
     ((False, ''Background video has no valid frames.''),
      init_app\<lparr>bg_frames := [[[(1, 1, 1)]], [[(2, 2, 2)]]], bg_total_frames := 2,
                bg_is_video := True, reverse_bg_check := Disabled\<rparr>)"
    by simp
  from t1 ok have n: "reverse_bg_check (snd (load_background_video_worker init_app (Some ?c))) =
     Normal" by blast
  from t1 ok have b: "cursor_ok (snd (load_background_video_worker init_app (Some ?c))) 2"
    unfolding fs by simp
  from t1 have c: "perform_chroma_key cv_ref [[(1, 2, 3)]] (Capture ?e) True
     (0, 255, 0) 10 0 0 = (Inr [[(1, 2, 3)]], Capture ?e)"
    by (simp add: cap_rewind_def)
  show ?thesis by (intro conjI a a2 ok fs n b c)
qed

text \<open>
  C7 as stated says that no compositing call absorbs an empty sequence. The core call on an
  opened capture without frames does: it returns the foreground and raises nothing.
\<close>

theorem empty_capture_is_absorbed:
  "perform_chroma_key cv_ref [[(1, 2, 3)]] (Capture \<lparr>cap_frames = [], cap_pos = 0\<rparr>) True
     (0, 255, 0) 10 0 0 =
     (Inr [[(1, 2, 3)]], Capture \<lparr>cap_frames = [], cap_pos = 0\<rparr>)"
  by (simp add: perform_chroma_key_def cap_read_def cap_rewind_def)


section \<open>Determinism and effects (C8)\<close>

lemma unchanged_except_refl: "unchanged_except ws hp hp"
  by (simp add: unchanged_except_def)

lemma unchanged_except_update:
  "unchanged_except {} (hp[s := ob]) hp' \<Longrightarrow> unchanged_except {s} hp hp'"
  by (auto simp: unchanged_except_def)

lemma unchanged_update_nth:
  "unchanged_except {} (hp[s := ob]) hp' \<Longrightarrow> s < length hp \<Longrightarrow> hp' ! s = ob"
  by (auto simp: unchanged_except_def)

lemma unchanged_nth:
  "unchanged_except ws hp hp' \<Longrightarrow> r < length hp \<Longrightarrow> r \<notin> ws \<Longrightarrow> hp' ! r = hp ! r"
  by (simp add: unchanged_except_def)

text \<open>
  Lines 51 to 74 write no object that existed before: \<open>combined\<close> and the result are new.
\<close>

lemma composite_refs_effect:
  "unchanged_except {} hp (snd (composite_refs cv hp f bg key tol soft spill)) \<and>
   result_of (composite_refs cv hp f bg key tol soft spill) =
     map_sum (\<lambda>e. e) Frame (composite_with cv f bg key tol soft spill) \<and>
   (\<forall>out. fst (composite_refs cv hp f bg key tol soft spill) = Inr out \<longrightarrow>
      length hp \<le> out \<and> out < length (snd (composite_refs cv hp f bg key tol soft spill)))"
proof (cases "resize_to cv bg (width f) (height f)")
  case (Inl e)
  then show ?thesis
    by (simp add: composite_refs_def composite_with_def result_of_def unchanged_except_refl)
next
  case (Inr bg_resized)
  note rs = this
  show ?thesis
  proof (cases "alpha cv f key tol soft")
    case (Inl e)
    with rs show ?thesis
      by (simp add: composite_refs_def composite_with_def key_and_blend_def result_of_def
          unchanged_except_refl)
  next
    case (Inr a)
    let ?c = "combined_img a bg_resized f"
    have "composite_refs cv hp f bg key tol soft spill =
          (Inr (Suc (length hp)),
           hp @ [Floats (if 0 < spill then spill_img spill ?c else ?c), Frame (finish spill ?c)])"
      using rs Inr
      by (simp add: composite_refs_def alloc_def floats_at_def finish_def nth_append
          list_update_append)
    moreover have "composite_with cv f bg key tol soft spill = Inr (finish spill ?c)"
      using rs Inr by (simp add: composite_with_def key_and_blend_def)
    ultimately show ?thesis
      by (simp add: result_of_def unchanged_except_def nth_append)
  qed
qed

lemma static_call_effect:
  assumes "frame < length hp" and "hp ! frame = Frame f"
    and "src = None \<or> (\<not> is_video \<and> (\<exists>s img. src = Some s \<and> s < length hp \<and> hp ! s = Frame img))"
  shows "unchanged_except {} hp
           (snd (perform_chroma_key_refs cv hp frame src is_video key tol soft spill))"
    and "result_of (perform_chroma_key_refs cv hp frame src is_video key tol soft spill) =
           map_sum (\<lambda>e. e) Frame
             (fst (perform_chroma_key cv f (source_of hp src) is_video key tol soft spill))"
    and "\<forall>out. fst (perform_chroma_key_refs cv hp frame src is_video key tol soft spill) = Inr out
           \<longrightarrow> (src = None \<and> out = frame) \<or>
               (length hp \<le> out \<and>
                out < length (snd (perform_chroma_key_refs cv hp frame src is_video key tol soft
                                     spill)))"
proof -
  let ?R = "perform_chroma_key_refs cv hp frame src is_video key tol soft spill"
  have "unchanged_except {} hp (snd ?R) \<and>
        result_of ?R = map_sum (\<lambda>e. e) Frame
             (fst (perform_chroma_key cv f (source_of hp src) is_video key tol soft spill)) \<and>
        (\<forall>out. fst ?R = Inr out \<longrightarrow>
           (src = None \<and> out = frame) \<or> (length hp \<le> out \<and> out < length (snd ?R)))"
  proof (cases src)
    case None
    then show ?thesis
      using assms(2)
      by (simp add: perform_chroma_key_refs_def perform_chroma_key_def source_of_def
          result_of_def unchanged_except_refl)
  next
    case (Some s)
    with assms(3) obtain img where s: "\<not> is_video" "s < length hp" "hp ! s = Frame img"
      by auto
    have R: "?R = composite_refs cv hp f img key tol soft spill"
      using Some s assms(2) by (simp add: perform_chroma_key_refs_def)
    have P: "fst (perform_chroma_key cv f (source_of hp src) is_video key tol soft spill) =
             composite_with cv f img key tol soft spill"
      using Some s by (simp add: perform_chroma_key_def source_of_def)
    show ?thesis unfolding R P using composite_refs_effect [of hp cv f img key tol soft spill]
      by blast
  qed
  then show "unchanged_except {} hp (snd ?R)"
    and "result_of ?R = map_sum (\<lambda>e. e) Frame
             (fst (perform_chroma_key cv f (source_of hp src) is_video key tol soft spill))"
    and "\<forall>out. fst ?R = Inr out \<longrightarrow>
           (src = None \<and> out = frame) \<or> (length hp \<le> out \<and> out < length (snd ?R))"
    by blast+
qed

lemma capture_call_effect:
  assumes "frame < length hp" and "hp ! frame = Frame f"
    and "s < length hp" and "hp ! s = Video cap"
  shows "unchanged_except {s} hp
           (snd (perform_chroma_key_refs cv hp frame (Some s) True key tol soft spill))"
    and "cap_pos cap < length (cap_frames cap) \<Longrightarrow>
           snd (perform_chroma_key_refs cv hp frame (Some s) True key tol soft spill) ! s =
             Video (cap\<lparr>cap_pos := Suc (cap_pos cap)\<rparr>) \<and>
           result_of (perform_chroma_key_refs cv hp frame (Some s) True key tol soft spill) =
             map_sum (\<lambda>e. e) Frame
               (composite_with cv f (cap_frames cap ! cap_pos cap) key tol soft spill)"
    and "length (cap_frames cap) \<le> cap_pos cap \<Longrightarrow> cap_frames cap \<noteq> [] \<Longrightarrow>
           snd (perform_chroma_key_refs cv hp frame (Some s) True key tol soft spill) ! s =
             Video (cap\<lparr>cap_pos := 1\<rparr>) \<and>
           result_of (perform_chroma_key_refs cv hp frame (Some s) True key tol soft spill) =
             map_sum (\<lambda>e. e) Frame
               (composite_with cv f (cap_frames cap ! 0) key tol soft spill)"
    and "cap_frames cap = [] \<Longrightarrow>
           perform_chroma_key_refs cv hp frame (Some s) True key tol soft spill =
             (Inr frame, hp[s := Video (cap\<lparr>cap_pos := 0\<rparr>)])"
proof -
  let ?R = "perform_chroma_key_refs cv hp frame (Some s) True key tol soft spill"
  have eff: "unchanged_except {s} hp (snd (composite_refs cv (hp[s := ob]) f b key tol soft spill))
          \<and> snd (composite_refs cv (hp[s := ob]) f b key tol soft spill) ! s = ob
          \<and> result_of (composite_refs cv (hp[s := ob]) f b key tol soft spill) =
              map_sum (\<lambda>e. e) Frame (composite_with cv f b key tol soft spill)" for ob b
  proof -
    note e = composite_refs_effect [of "hp[s := ob]" cv f b key tol soft spill]
    from e have u: "unchanged_except {} (hp[s := ob])
        (snd (composite_refs cv (hp[s := ob]) f b key tol soft spill))" by blast
    from u have "unchanged_except {s} hp
        (snd (composite_refs cv (hp[s := ob]) f b key tol soft spill))"
      by (rule unchanged_except_update)
    moreover from u assms(3)
    have "snd (composite_refs cv (hp[s := ob]) f b key tol soft spill) ! s = ob"
      by (rule unchanged_update_nth)
    ultimately show ?thesis using e by blast
  qed
  have R1: "?R = composite_refs cv (hp[s := Video (cap\<lparr>cap_pos := Suc (cap_pos cap)\<rparr>)]) f
                   (cap_frames cap ! cap_pos cap) key tol soft spill"
    if "cap_pos cap < length (cap_frames cap)"
    using that assms(2,4) by (simp add: perform_chroma_key_refs_def cap_read_def)
  have R2: "?R = composite_refs cv (hp[s := Video (cap\<lparr>cap_pos := 1\<rparr>)]) f
                   (cap_frames cap ! 0) key tol soft spill"
    if "length (cap_frames cap) \<le> cap_pos cap" "cap_frames cap \<noteq> []"
    using that assms(2,4) by (simp add: perform_chroma_key_refs_def cap_read_def cap_rewind_def)
  have R3: "?R = (Inr frame, hp[s := Video (cap\<lparr>cap_pos := 0\<rparr>)])"
    if "cap_frames cap = []"
    using that assms(2,4) by (simp add: perform_chroma_key_refs_def cap_read_def cap_rewind_def)
  show "unchanged_except {s} hp (snd ?R)"
  proof (cases "cap_pos cap < length (cap_frames cap)")
    case True
    show ?thesis unfolding R1 [OF True] using eff by blast
  next
    case False
    show ?thesis
    proof (cases "cap_frames cap = []")
      case True
      show ?thesis unfolding R3 [OF True] by (simp add: unchanged_except_def)
    next
      case ne: False
      from False have "length (cap_frames cap) \<le> cap_pos cap" by simp
      from R2 [OF this ne] show ?thesis using eff by simp
    qed
  qed
  show "snd ?R ! s = Video (cap\<lparr>cap_pos := Suc (cap_pos cap)\<rparr>) \<and>
        result_of ?R = map_sum (\<lambda>e. e) Frame
               (composite_with cv f (cap_frames cap ! cap_pos cap) key tol soft spill)"
    if "cap_pos cap < length (cap_frames cap)"
    unfolding R1 [OF that] using eff by blast
  show "snd ?R ! s = Video (cap\<lparr>cap_pos := 1\<rparr>) \<and>
        result_of ?R = map_sum (\<lambda>e. e) Frame
               (composite_with cv f (cap_frames cap ! 0) key tol soft spill)"
    if "length (cap_frames cap) \<le> cap_pos cap" "cap_frames cap \<noteq> []"
    unfolding R2 [OF that] using eff by blast
  show "?R = (Inr frame, hp[s := Video (cap\<lparr>cap_pos := 0\<rparr>)])" if "cap_frames cap = []"
    using that by (rule R3)
qed


lemma capture_call_value:
  assumes "frame < length hp" and "hp ! frame = Frame f"
    and "s < length hp" and "hp ! s = Video cap"
  shows "result_of (perform_chroma_key_refs cv hp frame (Some s) True key tol soft spill) =
           map_sum (\<lambda>e. e) Frame
             (fst (perform_chroma_key cv f (Capture cap) True key tol soft spill))"
    and "source_of (snd (perform_chroma_key_refs cv hp frame (Some s) True key tol soft spill))
           (Some s) =
         snd (perform_chroma_key cv f (Capture cap) True key tol soft spill)"
proof -
  let ?R = "perform_chroma_key_refs cv hp frame (Some s) True key tol soft spill"
  let ?P = "perform_chroma_key cv f (Capture cap) True key tol soft spill"
  note c = capture_call_effect [OF assms, of cv key tol soft spill]
  have ne: "frame \<noteq> s" using assms(2,4) by auto
  have "result_of ?R = map_sum (\<lambda>e. e) Frame (fst ?P) \<and> source_of (snd ?R) (Some s) = snd ?P"
  proof (cases "cap_pos cap < length (cap_frames cap)")
    case True
    from c(2) [OF True] show ?thesis
      using True by (simp add: perform_chroma_key_def cap_read_def source_of_def)
  next
    case False
    then have le: "length (cap_frames cap) \<le> cap_pos cap" by simp
    show ?thesis
    proof (cases "cap_frames cap = []")
      case True
      from c(4) [OF True] show ?thesis
        using True assms ne
        by (simp add: perform_chroma_key_def cap_read_def cap_rewind_def source_of_def
            result_of_def)
    next
      case ne': False
      from c(3) [OF le ne'] show ?thesis
        using False ne'
        by (simp add: perform_chroma_key_def cap_read_def cap_rewind_def source_of_def)
    qed
  qed
  then show "result_of ?R = map_sum (\<lambda>e. e) Frame (fst ?P)"
    and "source_of (snd ?R) (Some s) = snd ?P" by blast+
qed

text \<open>
  C8, as amended. \<open>perform_chroma_key\<close> is a function of its arguments and of the read
  position of a video-capture background. The arguments are references: \<open>frame\<close> to an
  array \<open>f\<close>, \<open>src\<close> to nothing, an image or a capture.

  When the background source is \<open>None\<close>, or an image and \<open>bg_is_video\<close> is false, the call
  writes no object that existed before it; its result is the exception or the array that
  the value-level function computes from the arguments' values; that array is a new object
  (or, for \<open>None\<close>, the frame itself); and a second call with the same arguments, on the
  objects as the first call left them, returns an equal array.

  When the background source is a capture \<open>cap\<close> read with \<open>bg_is_video\<close> true, the call
  writes the capture and no other object that existed; result and capture are those of the
  value-level function. Before the end of the capture, the call composites the frame at
  the read position and leaves the position one further, so the second call composites the
  next frame; at the end of a capture that has frames it rewinds, composites frame 0 and
  leaves the position at 1; on a capture without frames it returns the frame it was given
  and leaves the position at 0.
\<close>

theorem static_call_writes_nothing_capture_call_advances:
  assumes "frame < length hp" and "hp ! frame = Frame f"
  shows "(src = None \<or>
          (\<not> is_video \<and> (\<exists>s img. src = Some s \<and> s < length hp \<and> hp ! s = Frame img)) \<longrightarrow>
          (let R = perform_chroma_key_refs cv hp frame src is_video key tol soft spill
           in unchanged_except {} hp (snd R) \<and>
              result_of R =
                map_sum (\<lambda>e. e) Frame
                  (fst (perform_chroma_key cv f (source_of hp src) is_video key tol soft spill)) \<and>
              (\<forall>out. fst R = Inr out \<longrightarrow>
                 (src = None \<and> out = frame) \<or> (length hp \<le> out \<and> out < length (snd R))) \<and>
              result_of (perform_chroma_key_refs cv (snd R) frame src is_video key tol soft spill)
                = result_of R)) \<and>
         (s < length hp \<and> hp ! s = Video cap \<longrightarrow>
          (let R = perform_chroma_key_refs cv hp frame (Some s) True key tol soft spill;
               R2 = perform_chroma_key_refs cv (snd R) frame (Some s) True key tol soft spill
           in unchanged_except {s} hp (snd R) \<and>
              result_of R =
                map_sum (\<lambda>e. e) Frame
                  (fst (perform_chroma_key cv f (Capture cap) True key tol soft spill)) \<and>
              source_of (snd R) (Some s) =
                snd (perform_chroma_key cv f (Capture cap) True key tol soft spill) \<and>
              (cap_pos cap < length (cap_frames cap) \<longrightarrow>
                 snd R ! s = Video (cap\<lparr>cap_pos := Suc (cap_pos cap)\<rparr>) \<and>
                 result_of R =
                   map_sum (\<lambda>e. e) Frame
                     (composite_with cv f (cap_frames cap ! cap_pos cap) key tol soft spill)) \<and>
              (Suc (cap_pos cap) < length (cap_frames cap) \<longrightarrow>
                 snd R2 ! s = Video (cap\<lparr>cap_pos := Suc (Suc (cap_pos cap))\<rparr>) \<and>
                 result_of R2 =
                   map_sum (\<lambda>e. e) Frame
                     (composite_with cv f (cap_frames cap ! Suc (cap_pos cap)) key tol soft
                        spill)) \<and>
              (length (cap_frames cap) \<le> cap_pos cap \<and> cap_frames cap \<noteq> [] \<longrightarrow>
                 snd R ! s = Video (cap\<lparr>cap_pos := 1\<rparr>) \<and>
                 result_of R =
                   map_sum (\<lambda>e. e) Frame
                     (composite_with cv f (cap_frames cap ! 0) key tol soft spill)) \<and>
              (cap_frames cap = [] \<longrightarrow>
                 R = (Inr frame, hp[s := Video (cap\<lparr>cap_pos := 0\<rparr>)]))))"
proof (intro conjI impI)
  assume st: "src = None \<or>
          (\<not> is_video \<and> (\<exists>s img. src = Some s \<and> s < length hp \<and> hp ! s = Frame img))"
  let ?R = "perform_chroma_key_refs cv hp frame src is_video key tol soft spill"
  let ?hp' = "snd ?R"
  note e = static_call_effect [OF assms st, of cv key tol soft spill]
  have len: "length hp \<le> length ?hp'" using e(1) by (simp add: unchanged_except_def)
  have fr: "frame < length ?hp'" using assms(1) len by simp
  have fv: "?hp' ! frame = Frame f"
    using unchanged_nth [OF e(1) assms(1)] assms(2) by simp
  have st': "src = None \<or>
          (\<not> is_video \<and> (\<exists>s img. src = Some s \<and> s < length ?hp' \<and> ?hp' ! s = Frame img))"
  proof (cases src)
    case None
    then show ?thesis by simp
  next
    case (Some r)
    with st obtain img where r: "\<not> is_video" "r < length hp" "hp ! r = Frame img" by auto
    have "?hp' ! r = Frame img" using unchanged_nth [OF e(1) r(2)] r(3) by simp
    with r len Some show ?thesis by auto
  qed
  have so: "source_of ?hp' src = source_of hp src"
  proof (cases src)
    case None
    then show ?thesis by (simp add: source_of_def)
  next
    case (Some r)
    with st have "r < length hp" by auto
    from unchanged_nth [OF e(1) this] show ?thesis by (simp add: source_of_def Some)
  qed
  note e2 = static_call_effect(2) [OF fr fv st', of cv key tol soft spill]
  have two: "result_of (perform_chroma_key_refs cv ?hp' frame src is_video key tol soft spill) =
             result_of ?R"
    unfolding e2 so e(2) by (rule refl)
  from e two show "let R = ?R
           in unchanged_except {} hp (snd R) \<and>
              result_of R =
                map_sum (\<lambda>e. e) Frame
                  (fst (perform_chroma_key cv f (source_of hp src) is_video key tol soft spill)) \<and>
              (\<forall>out. fst R = Inr out \<longrightarrow>
                 (src = None \<and> out = frame) \<or> (length hp \<le> out \<and> out < length (snd R))) \<and>
              result_of (perform_chroma_key_refs cv (snd R) frame src is_video key tol soft spill)
                = result_of R"
    unfolding Let_def by blast
next
  assume "s < length hp \<and> hp ! s = Video cap"
  then have s: "s < length hp" "hp ! s = Video cap" by simp_all
  let ?R = "perform_chroma_key_refs cv hp frame (Some s) True key tol soft spill"
  let ?hp' = "snd ?R"
  let ?R2 = "perform_chroma_key_refs cv ?hp' frame (Some s) True key tol soft spill"
  note c = capture_call_effect [OF assms s, of cv key tol soft spill]
  note v = capture_call_value [OF assms s, of cv key tol soft spill]
  have ne: "frame \<noteq> s" using assms(2) s(2) by auto
  have len: "length hp \<le> length ?hp'" using c(1) by (simp add: unchanged_except_def)
  have fr: "frame < length ?hp'" and sl: "s < length ?hp'" using assms(1) s(1) len by simp_all
  have fv: "?hp' ! frame = Frame f"
    using unchanged_nth [OF c(1) assms(1)] ne assms(2) by simp
  have nxt: "snd ?R2 ! s = Video (cap\<lparr>cap_pos := Suc (Suc (cap_pos cap))\<rparr>) \<and>
             result_of ?R2 =
               map_sum (\<lambda>e. e) Frame
                 (composite_with cv f (cap_frames cap ! Suc (cap_pos cap)) key tol soft spill)"
    if "Suc (cap_pos cap) < length (cap_frames cap)"
  proof -
    from that have "cap_pos cap < length (cap_frames cap)" by simp
    from c(2) [OF this] have sv: "?hp' ! s = Video (cap\<lparr>cap_pos := Suc (cap_pos cap)\<rparr>)"
      by blast
    have "cap_pos (cap\<lparr>cap_pos := Suc (cap_pos cap)\<rparr>)
            < length (cap_frames (cap\<lparr>cap_pos := Suc (cap_pos cap)\<rparr>))"
      using that by simp
    from capture_call_effect(2) [OF fr fv sl sv this, of cv key tol soft spill]
    show ?thesis by simp
  qed
  from c v nxt show "let R = ?R; R2 = perform_chroma_key_refs cv (snd R) frame (Some s) True key
                                        tol soft spill
           in unchanged_except {s} hp (snd R) \<and>
              result_of R =
                map_sum (\<lambda>e. e) Frame
                  (fst (perform_chroma_key cv f (Capture cap) True key tol soft spill)) \<and>
              source_of (snd R) (Some s) =
                snd (perform_chroma_key cv f (Capture cap) True key tol soft spill) \<and>
              (cap_pos cap < length (cap_frames cap) \<longrightarrow>
                 snd R ! s = Video (cap\<lparr>cap_pos := Suc (cap_pos cap)\<rparr>) \<and>
                 result_of R =
                   map_sum (\<lambda>e. e) Frame
                     (composite_with cv f (cap_frames cap ! cap_pos cap) key tol soft spill)) \<and>
              (Suc (cap_pos cap) < length (cap_frames cap) \<longrightarrow>
                 snd R2 ! s = Video (cap\<lparr>cap_pos := Suc (Suc (cap_pos cap))\<rparr>) \<and>
                 result_of R2 =
                   map_sum (\<lambda>e. e) Frame
                     (composite_with cv f (cap_frames cap ! Suc (cap_pos cap)) key tol soft
                        spill)) \<and>
              (length (cap_frames cap) \<le> cap_pos cap \<and> cap_frames cap \<noteq> [] \<longrightarrow>
                 snd R ! s = Video (cap\<lparr>cap_pos := 1\<rparr>) \<and>
                 result_of R =
                   map_sum (\<lambda>e. e) Frame
                     (composite_with cv f (cap_frames cap ! 0) key tol soft spill)) \<and>
              (cap_frames cap = [] \<longrightarrow>
                 R = (Inr frame, hp[s := Video (cap\<lparr>cap_pos := 0\<rparr>)]))"
    unfolding Let_def by blast
qed


text \<open>
  On the objects of \<open>heap_ref\<close>, with the frame at reference 0. With the image at reference
  1: nothing is written, the result is the image's pixel, and so is the result of a second
  call. With the capture at reference 2: only the capture is written, it is left at
  position 1, the first call returns frame 0 of the capture and the second frame 1.
\<close>

theorem static_call_writes_nothing_capture_call_advances_witness:
  "0 < length heap_ref \<and> heap_ref ! 0 = Frame [[(0, 255, 0)]] \<and>
   heap_ref ! 1 = Frame [[(1, 1, 1)]] \<and>
   heap_ref ! 2 = Video \<lparr>cap_frames = [[[(1, 1, 1)]], [[(2, 2, 2)]]], cap_pos = 0\<rparr> \<and>
   unchanged_except {} heap_ref
     (snd (perform_chroma_key_refs cv_ref heap_ref 0 (Some 1) False (0, 255, 0) 10 0 0)) \<and>
   result_of (perform_chroma_key_refs cv_ref heap_ref 0 (Some 1) False (0, 255, 0) 10 0 0) =
     Inr (Frame [[(1, 1, 1)]]) \<and>
   fst (perform_chroma_key_refs cv_ref heap_ref 0 (Some 1) False (0, 255, 0) 10 0 0) = Inr 4 \<and>
   result_of
     (perform_chroma_key_refs cv_ref
        (snd (perform_chroma_key_refs cv_ref heap_ref 0 (Some 1) False (0, 255, 0) 10 0 0))
        0 (Some 1) False (0, 255, 0) 10 0 0) =
     Inr (Frame [[(1, 1, 1)]]) \<and>
   unchanged_except {2} heap_ref
     (snd (perform_chroma_key_refs cv_ref heap_ref 0 (Some 2) True (0, 255, 0) 10 0 0)) \<and>
   snd (perform_chroma_key_refs cv_ref heap_ref 0 (Some 2) True (0, 255, 0) 10 0 0) ! 2 =
     Video \<lparr>cap_frames = [[[(1, 1, 1)]], [[(2, 2, 2)]]], cap_pos = 1\<rparr> \<and>
   result_of (perform_chroma_key_refs cv_ref heap_ref 0 (Some 2) True (0, 255, 0) 10 0 0) =
     Inr (Frame [[(1, 1, 1)]]) \<and>
   result_of
     (perform_chroma_key_refs cv_ref
        (snd (perform_chroma_key_refs cv_ref heap_ref 0 (Some 2) True (0, 255, 0) 10 0 0))
        0 (Some 2) True (0, 255, 0) 10 0 0) =
     Inr (Frame [[(2, 2, 2)]])"
proof -
  let ?cap = "\<lparr>cap_frames = [[[(1, 1, 1)]], [[(2, 2, 2)]]], cap_pos = 0\<rparr>"
  let ?f = "[[(0, 255, 0)]] :: raster"
  have l: "0 < length heap_ref" and f: "heap_ref ! 0 = Frame ?f"
    and i: "heap_ref ! 1 = Frame [[(1, 1, 1)]]" and c: "heap_ref ! 2 = Video ?cap"
    by (simp_all add: heap_ref_def)
  note t = static_call_writes_nothing_capture_call_advances
    [OF l f, where src = "Some 1" and is_video = False and s = 2 and cap = ?cap
       and cv = cv_ref and key = "(0, 255, 0)" and tol = 10 and soft = 0 and spill = 0]
  let ?R = "perform_chroma_key_refs cv_ref heap_ref 0 (Some 1) False (0, 255, 0) 10 0 0"
  let ?C = "perform_chroma_key_refs cv_ref heap_ref 0 (Some 2) True (0, 255, 0) 10 0 0"
  have pa: "Some 1 = None \<or>
      (\<not> False \<and> (\<exists>s img. Some (1::nat) = Some s \<and> s < length heap_ref \<and>
                           heap_ref ! s = Frame img))"
    by (simp add: heap_ref_def)
  have pb: "2 < length heap_ref \<and> heap_ref ! 2 = Video ?cap"
    by (simp add: heap_ref_def)
  have e1: "composite_with cv_ref ?f [[(1, 1, 1)]] (0, 255, 0) 10 0 0 = Inr [[(1, 1, 1)]]"
    by (simp add: core_defs ref_defs Let_def)
  have e2: "composite_with cv_ref ?f [[(2, 2, 2)]] (0, 255, 0) 10 0 0 = Inr [[(2, 2, 2)]]"
    by (simp add: core_defs ref_defs Let_def)
  have e3: "perform_chroma_key cv_ref ?f (Capture ?cap) True (0, 255, 0) 10 0 0 =
      (Inr [[(1, 1, 1)]], Capture \<lparr>cap_frames = [[[(1, 1, 1)]], [[(2, 2, 2)]]], cap_pos = 1\<rparr>)"
    by (simp add: core_defs ref_defs Let_def)
  have so: "source_of heap_ref (Some 1) = Image [[(1, 1, 1)]]"
    by (simp add: source_of_def heap_ref_def)
  from t [THEN conjunct1, THEN mp, OF pa]
  have a: "unchanged_except {} heap_ref (snd ?R)"
    and b: "result_of ?R = Inr (Frame [[(1, 1, 1)]])"
    and d: "result_of (perform_chroma_key_refs cv_ref (snd ?R) 0 (Some 1) False
                        (0, 255, 0) 10 0 0) = Inr (Frame [[(1, 1, 1)]])"
    unfolding Let_def so perform_image by (simp_all add: e1)
  have n: "fst ?R = Inr 4"
    by (simp add: perform_chroma_key_refs_def composite_refs_def alloc_def floats_at_def
        heap_ref_def core_defs ref_defs Let_def)
  from t [THEN conjunct2, THEN mp, OF pb]
  have g: "unchanged_except {2} heap_ref (snd ?C)"
    and h: "snd ?C ! 2 = Video \<lparr>cap_frames = [[[(1, 1, 1)]], [[(2, 2, 2)]]], cap_pos = 1\<rparr>"
    and j: "result_of ?C = Inr (Frame [[(1, 1, 1)]])"
    and k: "result_of (perform_chroma_key_refs cv_ref (snd ?C) 0 (Some 2) True
                        (0, 255, 0) 10 0 0) = Inr (Frame [[(2, 2, 2)]])"
    unfolding Let_def by (simp_all add: e1 e2 e3)
  show ?thesis by (intro conjI l f i c a b n d g h j k)
qed

text \<open>
  C8 as stated fails for a video capture. Two calls with the same arguments on a capture of
  two frames: the first composites frame 0 and leaves the capture at position 1, the second
  composites frame 1. The argument was changed and the outputs differ.
\<close>

theorem capture_call_advances_and_differs:
  "perform_chroma_key cv_ref [[(0, 255, 0)]]
     (Capture \<lparr>cap_frames = [[[(1, 1, 1)]], [[(2, 2, 2)]]], cap_pos = 0\<rparr>) True
     (0, 255, 0) 10 0 0 =
     (Inr [[(1, 1, 1)]], Capture \<lparr>cap_frames = [[[(1, 1, 1)]], [[(2, 2, 2)]]], cap_pos = 1\<rparr>) \<and>
   perform_chroma_key cv_ref [[(0, 255, 0)]]
     (Capture \<lparr>cap_frames = [[[(1, 1, 1)]], [[(2, 2, 2)]]], cap_pos = 1\<rparr>) True
     (0, 255, 0) 10 0 0 =
     (Inr [[(2, 2, 2)]], Capture \<lparr>cap_frames = [[[(1, 1, 1)]], [[(2, 2, 2)]]], cap_pos = 2\<rparr>)"
  by (simp add: core_defs ref_defs Let_def)


section \<open>Softness and the feather (C9)\<close>

















end
